theory Spec2Isabelle
  imports Main "HOL-Library.Word" "HOL-Library.Multiset" "HOL-Library.Sublist"
begin

section \<open>Values of the controllers package\<close>

text \<open>
  The handlers of \<^verbatim>\<open>controllers\<close> (\<^verbatim>\<open>S3Properties\<close> methods) are embedded as functions
  from the decoded request and the state of the storage backend to an outcome: what was
  written to the \<^verbatim>\<open>http.ResponseWriter\<close>, which S3 client calls were issued and in which
  order, how the handler ended, and the backend state it left behind.

  Go's \<^verbatim>\<open>(value, err)\<close> results are sums: \<open>Inl err\<close> carries the error message,
  \<open>Inr v\<close> the value. Pointers that the code dereferences are options, \<open>None\<close> being
  \<^verbatim>\<open>nil\<close>; dereferencing \<^verbatim>\<open>nil\<close> panics.
\<close>

type_synonym int32 = "32 word"
type_synonym int64 = "64 word"

text \<open>\<^verbatim>\<open>types.CompletedPart\<close>: the two fields the finalizer reads and copies.\<close>

record CompletedPart =
  ETag :: "string option"
  PartNumber :: "int32 option"

text \<open>\<^verbatim>\<open>types.Object\<close>: the two fields the listing handler reads and copies.\<close>

record Object =
  Key :: "string option"
  Size :: "int64 option"

text \<open>
  \<^verbatim>\<open>s3.CreateMultipartUploadOutput\<close>, the fields the initiator dereferences. The output's
  \<^verbatim>\<open>Key\<close> is named \<open>UploadKey\<close> here, \<open>Key\<close> being the field of \<open>Object\<close>.
\<close>

record CreateMultipartUploadOutput =
  UploadId :: "string option"
  UploadKey :: "string option"

text \<open>\<^verbatim>\<open>s3.HeadObjectOutput\<close>: the field the finalizer reports.\<close>

record HeadObjectOutput =
  ContentLength :: "int64 option"

text \<open>
  Modelled from the spec: \<^verbatim>\<open>interfaces.SignedUrl\<close> and \<^verbatim>\<open>interfaces.ApiResponse\<close> are
  declared in the package \<^verbatim>\<open>go-aws/interfaces\<close>, not in the sources at hand. Following the
  spec, a signed URL entry is \<open>{signedUrl, partNumber}\<close> and every success response is
  the envelope \<open>{status, payload}\<close>. The payloads are the ones each handler builds.
\<close>

record SignedUrl =
  signedUrl :: string
  partNumber :: int32

datatype payload =
    PUpload string string
  | PUrls "SignedUrl list"
  | PKeySize string "int64 option"
  | PObjects "Object list"
  | PBool bool
  | PString string

record ApiResponse =
  Status :: int
  Payload :: payload

text \<open>
  A write to the \<^verbatim>\<open>http.ResponseWriter\<close>: \<^verbatim>\<open>http.Error(w, msg, code)\<close> or
  \<^verbatim>\<open>json.NewEncoder(w).Encode(ApiResponse{...})\<close>.
\<close>

datatype response = Error string nat | Encode ApiResponse

definition StatusBadRequest :: nat where
  "StatusBadRequest = 400"

definition StatusInternalServerError :: nat where
  "StatusInternalServerError = 500"

section \<open>The S3 client\<close>

text \<open>
  The calls a handler issues through \<^verbatim>\<open>sc.s3Client\<close> (or a presign client made from it),
  with the parameters the handler sets. A duration is \<^verbatim>\<open>time.Duration\<close>: an \<^verbatim>\<open>int64\<close>
  count of nanoseconds.
\<close>

datatype call =
    Call_CreateMultipartUpload string string
  | Call_PresignUploadPart string string string int32 int64
  | Call_CompleteMultipartUpload string string string "CompletedPart list"
  | Call_HeadObject string string
  | Call_ListObjectsV2 string string string
  | Call_DeleteObject string string
  | Call_CopyObject string string string
  | Call_PresignGetObject string string string int64

text \<open>
  The client itself is outside the repository. It is a parameter: one function per
  operation, from the parameters and the backend's state \<open>'b\<close> to the operation's
  \<^verbatim>\<open>(output, err)\<close> and the backend's next state. Nothing is assumed about these
  functions, so a theorem about a handler holds for every backend behaviour.
\<close>

record 'b S3Client =
  s3_CreateMultipartUpload ::
    "string \<Rightarrow> string \<Rightarrow> 'b \<Rightarrow> (string + CreateMultipartUploadOutput) \<times> 'b"
  s3_PresignUploadPart ::
    "string \<Rightarrow> string \<Rightarrow> string \<Rightarrow> int32 \<Rightarrow> int64 \<Rightarrow> 'b \<Rightarrow> (string + string) \<times> 'b"
  s3_CompleteMultipartUpload ::
    "string \<Rightarrow> string \<Rightarrow> string \<Rightarrow> CompletedPart list \<Rightarrow> 'b \<Rightarrow> (string + unit) \<times> 'b"
  s3_HeadObject ::
    "string \<Rightarrow> string \<Rightarrow> 'b \<Rightarrow> (string + HeadObjectOutput) \<times> 'b"
  s3_ListObjectsV2 ::
    "string \<Rightarrow> string \<Rightarrow> string \<Rightarrow> 'b \<Rightarrow> (string + Object list) \<times> 'b"
  s3_DeleteObject ::
    "string \<Rightarrow> string \<Rightarrow> 'b \<Rightarrow> (string + unit) \<times> 'b"
  s3_CopyObject ::
    "string \<Rightarrow> string \<Rightarrow> string \<Rightarrow> 'b \<Rightarrow> (string + unit) \<times> 'b"
  s3_PresignGetObject ::
    "string \<Rightarrow> string \<Rightarrow> string \<Rightarrow> int64 \<Rightarrow> 'b \<Rightarrow> (string + string) \<times> 'b"

record 'b S3Properties =
  s3Client :: "'b S3Client"
  bucketName :: string

section \<open>Requests and outcomes\<close>

text \<open>
  The anonymous request-body structs. \<open>Parts\<close> is an \<^verbatim>\<open>int\<close> for the part URL issuer
  and a slice of completed parts for the finalizer. A handler receives the struct as
  \<^verbatim>\<open>json.Decoder.Decode\<close> left it, together with the error \<^verbatim>\<open>Decode\<close> returned
  (\<open>None\<close> is \<^verbatim>\<open>nil\<close>). A Go \<^verbatim>\<open>int\<close> is given by its value.
\<close>

record InitiateBody =
  FileName :: string

record 'p RequestBody =
  FileKey :: string
  FileId :: string
  Parts :: 'p

type_synonym 'a decoded = "'a \<times> string option"

text \<open>\<^verbatim>\<open>url.Values\<close> and its \<^verbatim>\<open>Get\<close>: the first value of the key, or the empty string.\<close>

type_synonym Values = "string \<rightharpoonup> string list"

definition Get :: "Values \<Rightarrow> string \<Rightarrow> string" where
  "Get v k = (case v k of None \<Rightarrow> [] | Some [] \<Rightarrow> [] | Some (x # _) \<Rightarrow> x)"

datatype ending = Returned | Panicked

record 'b outcome =
  writes :: "response list"
  calls :: "call list"
  ended :: ending
  backend :: 'b

text \<open>Write once and return; and a panic, which unwinds the handler with nothing written.\<close>

definition finish :: "response \<Rightarrow> call list \<Rightarrow> 'b \<Rightarrow> 'b outcome" where
  "finish wr cs s = \<lparr>writes = [wr], calls = cs, ended = Returned, backend = s\<rparr>"

definition panic :: "call list \<Rightarrow> 'b \<Rightarrow> 'b outcome" where
  "panic cs s = \<lparr>writes = [], calls = cs, ended = Panicked, backend = s\<rparr>"

section \<open>InitiateMultipartUpload\<close>

text \<open>The error of \<^verbatim>\<open>Decode\<close> is dropped: the handler goes on with the struct as it is.\<close>

definition InitiateMultipartUpload ::
  "'b S3Properties \<Rightarrow> InitiateBody decoded \<Rightarrow> 'b \<Rightarrow> 'b outcome" where
  "InitiateMultipartUpload sc dec s =
     (let requestBody = fst dec;
          c = Call_CreateMultipartUpload (bucketName sc) (FileName requestBody)
      in case s3_CreateMultipartUpload (s3Client sc) (bucketName sc) (FileName requestBody) s of
           (Inl err, s') \<Rightarrow> finish (Error err StatusInternalServerError) [c] s'
         | (Inr resp, s') \<Rightarrow>
             (case UploadId resp of
                None \<Rightarrow> panic [c] s'
              | Some uid \<Rightarrow>
                  (case UploadKey resp of
                     None \<Rightarrow> panic [c] s'
                   | Some k \<Rightarrow>
                       finish (Encode \<lparr>Status = 200, Payload = PUpload uid k\<rparr>) [c] s')))"

section \<open>GeneratePresignedUrl\<close>

definition Minute :: int64 where
  "Minute = 60000000000"

definition Second :: int64 where
  "Second = 1000000000"

text \<open>
  The loop \<^verbatim>\<open>for i := 1; i <= requestBody.Parts; i++\<close>. \<^verbatim>\<open>int32(i)\<close> keeps the low 32
  bits of \<open>i\<close>. The store \<^verbatim>\<open>urls[i-1] = ...\<close> panics outside the slice.
\<close>

function presignLoop ::
  "'b S3Properties \<Rightarrow> int RequestBody \<Rightarrow> int \<Rightarrow> SignedUrl list \<Rightarrow> call list \<Rightarrow> 'b \<Rightarrow> 'b outcome"
  where
  "presignLoop sc requestBody i urls cs s =
     (if i \<le> Parts requestBody then
        (let pn = (word_of_int i :: int32);
             c = Call_PresignUploadPart (bucketName sc) (FileKey requestBody)
                   (FileId requestBody) pn (15 * Minute)
         in case s3_PresignUploadPart (s3Client sc) (bucketName sc) (FileKey requestBody)
                   (FileId requestBody) pn (15 * Minute) s of
              (Inl err, s') \<Rightarrow>
                finish (Error (''Failed to generate presigned URL: '' @ err)
                  StatusInternalServerError) (cs @ [c]) s'
            | (Inr url, s') \<Rightarrow>
                if 1 \<le> i \<and> i - 1 < int (length urls) then
                  presignLoop sc requestBody (i + 1)
                    (urls[nat (i - 1) := \<lparr>signedUrl = url, partNumber = pn\<rparr>]) (cs @ [c]) s'
                else panic (cs @ [c]) s')
      else finish (Encode \<lparr>Status = 200, Payload = PUrls urls\<rparr>) cs s)"
  by pat_completeness auto
termination
  by (relation "measure (\<lambda>(sc, requestBody, i, urls, cs, s). nat (Parts requestBody + 1 - i))")
    auto

text \<open>
  \<^verbatim>\<open>make([]interfaces.SignedUrl, requestBody.Parts)\<close> allocates the whole slice before
  the loop. It panics on a negative length and on a length out of range, and an
  allocation that the machine cannot serve ends the process; either way the handler ends
  with nothing written. The largest length for which \<^verbatim>\<open>make\<close> returns belongs to the
  machine: it is the parameter \<open>maxLen\<close>. Up to it the slice holds that many zero
  values.
\<close>

definition GeneratePresignedUrl ::
  "nat \<Rightarrow> 'b S3Properties \<Rightarrow> int RequestBody decoded \<Rightarrow> 'b \<Rightarrow> 'b outcome" where
  "GeneratePresignedUrl maxLen sc dec s =
     (let requestBody = fst dec in
      case snd dec of
        Some err \<Rightarrow> finish (Error ''Invalid request payload'' StatusBadRequest) [] s
      | None \<Rightarrow>
          if Parts requestBody < 0 \<or> int maxLen < Parts requestBody then panic [] s
          else presignLoop sc requestBody 1
                 (replicate (nat (Parts requestBody)) \<lparr>signedUrl = [], partNumber = 0\<rparr>) [] s)"

section \<open>CompleteMultipartUpload\<close>

text \<open>
  \<^verbatim>\<open>sort.Slice\<close> belongs to Go's standard library. It is a parameter \<open>srt\<close> of the
  finalizer, taking the \<^verbatim>\<open>less\<close> function and the slice. Its documented contract, for
  a \<^verbatim>\<open>less\<close> that compares an integer key: the result is a rearrangement of the slice
  in which the keys ascend. Stability is not promised.
\<close>

type_synonym 'a sorter = "('a \<Rightarrow> 'a \<Rightarrow> bool) \<Rightarrow> 'a list \<Rightarrow> 'a list"

definition sortSliceContract :: "'a sorter \<Rightarrow> bool" where
  "sortSliceContract srt \<longleftrightarrow>
     (\<forall>(key :: 'a \<Rightarrow> int) xs.
        mset (srt (\<lambda>a b. key a < key b) xs) = mset xs \<and>
        sorted (map key (srt (\<lambda>a b. key a < key b) xs)))"

text \<open>
  The routine \<^verbatim>\<open>sort.Slice\<close> runs on a slice of at most twelve elements:
  \<^verbatim>\<open>for i := a + 1; i < b; i++ { for j := i; j > a && less(j, j-1); j-- { swap(j, j-1) } }\<close>.
  \<open>insertLess\<close> is the inner loop, on the sorted part before position \<open>i\<close> read from its
  right end.
\<close>

fun insertLess :: "('a \<Rightarrow> 'a \<Rightarrow> bool) \<Rightarrow> 'a \<Rightarrow> 'a list \<Rightarrow> 'a list" where
  "insertLess lt x [] = [x]"
| "insertLess lt x (y # ys) =
     (if lt x y then y # insertLess lt x ys else x # y # ys)"

definition insertionSortLessFunc :: "'a sorter" where
  "insertionSortLessFunc lt xs = rev (foldl (\<lambda>acc x. insertLess lt x acc) [] xs)"

text \<open>
  The \<^verbatim>\<open>less\<close> function of the finalizer dereferences both part numbers and compares
  them as signed 32-bit integers.
\<close>

definition partKey :: "CompletedPart \<Rightarrow> int" where
  "partKey p = sint (the (PartNumber p))"

definition lessPart :: "CompletedPart \<Rightarrow> CompletedPart \<Rightarrow> bool" where
  "lessPart a b \<longleftrightarrow> partKey a < partKey b"

text \<open>
  \<^verbatim>\<open>sort.Slice(requestBody.Parts, less)\<close>. A slice of fewer than two elements is left
  alone and \<^verbatim>\<open>less\<close> is never called. On a longer slice every element is compared at
  least once, so a part without a part number is dereferenced: the result \<open>None\<close> is
  that panic.
\<close>

definition sortParts :: "CompletedPart sorter \<Rightarrow> CompletedPart list \<Rightarrow> CompletedPart list option"
  where
  "sortParts srt ps =
     (if length ps < 2 then Some ps
      else if list_ex (\<lambda>p. PartNumber p = None) ps then None
      else Some (srt lessPart ps))"

definition CompleteMultipartUpload ::
  "CompletedPart sorter \<Rightarrow> 'b S3Properties \<Rightarrow> CompletedPart list RequestBody decoded \<Rightarrow> 'b
     \<Rightarrow> 'b outcome" where
  "CompleteMultipartUpload srt sc dec s =
     (let requestBody = fst dec in
      case sortParts srt (Parts requestBody) of
        None \<Rightarrow> panic [] s
      | Some sortedParts \<Rightarrow>
          (let completedParts =
                 map (\<lambda>part. \<lparr>ETag = ETag part, PartNumber = PartNumber part\<rparr>) sortedParts;
               c1 = Call_CompleteMultipartUpload (bucketName sc) (FileKey requestBody)
                      (FileId requestBody) completedParts;
               c2 = Call_HeadObject (bucketName sc) (FileKey requestBody)
           in case s3_CompleteMultipartUpload (s3Client sc) (bucketName sc)
                     (FileKey requestBody) (FileId requestBody) completedParts s of
                (Inl err, s1) \<Rightarrow> finish (Error err StatusInternalServerError) [c1] s1
              | (Inr _, s1) \<Rightarrow>
                  (case s3_HeadObject (s3Client sc) (bucketName sc) (FileKey requestBody) s1 of
                     (Inl err, s2) \<Rightarrow> finish (Error err StatusInternalServerError) [c1, c2] s2
                   | (Inr headResp, s2) \<Rightarrow>
                       finish (Encode \<lparr>Status = 200,
                                 Payload = PKeySize (FileKey requestBody) (ContentLength headResp)\<rparr>)
                         [c1, c2] s2)))"

text \<open>The manifest of the first call, when that call is the completion.\<close>

definition submittedManifest :: "'b outcome \<Rightarrow> CompletedPart list option" where
  "submittedManifest r =
     (case calls r of
        Call_CompleteMultipartUpload b k u m # _ \<Rightarrow> Some m
      | _ \<Rightarrow> None)"

section \<open>List\<close>

text \<open>
  \<^verbatim>\<open>strings.HasSuffix\<close>:
  \<^verbatim>\<open>len(s) >= len(suffix) && s[len(s)-len(suffix):] == suffix\<close>.
\<close>

definition HasSuffix :: "string \<Rightarrow> string \<Rightarrow> bool" where
  "HasSuffix s suf \<longleftrightarrow> length suf \<le> length s \<and> drop (length s - length suf) s = suf"

text \<open>
  The loop over \<^verbatim>\<open>resp.Contents\<close>, with the slice \<open>objects\<close> built so far. Whatever
  the delimiter, the condition dereferences \<^verbatim>\<open>item.Key\<close>; \<open>None\<close> is the panic on a
  \<^verbatim>\<open>nil\<close> key.
\<close>

fun filterContents :: "string \<Rightarrow> Object list \<Rightarrow> Object list \<Rightarrow> Object list option" where
  "filterContents delimiter [] objects = Some objects"
| "filterContents delimiter (item # items) objects =
     (case Key item of
        None \<Rightarrow> None
      | Some k \<Rightarrow>
          if (delimiter = ''/'' \<and> HasSuffix k ''/'') \<or> (delimiter \<noteq> ''/'' \<and> \<not> HasSuffix k ''/'')
          then filterContents delimiter items (objects @ [\<lparr>Key = Key item, Size = Size item\<rparr>])
          else filterContents delimiter items objects)"

definition List :: "'b S3Properties \<Rightarrow> Values \<Rightarrow> 'b \<Rightarrow> 'b outcome" where
  "List sc q s =
     (let prefix = Get q ''prefix'';
          delimiter = Get q ''delimiter'';
          c = Call_ListObjectsV2 (bucketName sc) prefix delimiter
      in case s3_ListObjectsV2 (s3Client sc) (bucketName sc) prefix delimiter s of
           (Inl err, s') \<Rightarrow> finish (Error err StatusInternalServerError) [c] s'
         | (Inr contents, s') \<Rightarrow>
             (case filterContents delimiter contents [] of
                None \<Rightarrow> panic [c] s'
              | Some objects \<Rightarrow>
                  finish (Encode \<lparr>Status = 200, Payload = PObjects objects\<rparr>) [c] s'))"

section \<open>Remove and Rename\<close>

definition Remove :: "'b S3Properties \<Rightarrow> Values \<Rightarrow> 'b \<Rightarrow> 'b outcome" where
  "Remove sc q s =
     (let fileKey = Get q ''fileKey'';
          c = Call_DeleteObject (bucketName sc) fileKey
      in case s3_DeleteObject (s3Client sc) (bucketName sc) fileKey s of
           (Inl err, s') \<Rightarrow> finish (Error err StatusInternalServerError) [c] s'
         | (Inr _, s') \<Rightarrow> finish (Encode \<lparr>Status = 200, Payload = PBool True\<rparr>) [c] s')"

text \<open>The copy source is \<^verbatim>\<open>fmt.Sprintf("%s/%s", sc.bucketName, oldFileKey)\<close>.\<close>

definition Rename :: "'b S3Properties \<Rightarrow> Values \<Rightarrow> 'b \<Rightarrow> 'b outcome" where
  "Rename sc q s =
     (let oldFileKey = Get q ''oldFileKey'';
          newFileKey = Get q ''newFileKey'';
          copySource = bucketName sc @ ''/'' @ oldFileKey;
          c1 = Call_CopyObject (bucketName sc) copySource newFileKey;
          c2 = Call_DeleteObject (bucketName sc) oldFileKey
      in case s3_CopyObject (s3Client sc) (bucketName sc) copySource newFileKey s of
           (Inl err, s1) \<Rightarrow> finish (Error err StatusInternalServerError) [c1] s1
         | (Inr _, s1) \<Rightarrow>
             (case s3_DeleteObject (s3Client sc) (bucketName sc) oldFileKey s1 of
                (Inl err, s2) \<Rightarrow> finish (Error err StatusInternalServerError) [c1, c2] s2
              | (Inr _, s2) \<Rightarrow>
                  finish (Encode \<lparr>Status = 200, Payload = PBool True\<rparr>) [c1, c2] s2))"

section \<open>Share\<close>

text \<open>
  \<^verbatim>\<open>strconv.Atoi\<close>, from Go's standard library: an optional sign, then one or more decimal
  digits and nothing else, the value within the 64-bit \<^verbatim>\<open>int\<close>. \<open>None\<close> is a returned
  error (syntax or range).
\<close>

definition isDigit :: "char \<Rightarrow> bool" where
  "isDigit ch \<longleftrightarrow> 48 \<le> (of_char ch :: nat) \<and> (of_char ch :: nat) \<le> 57"

definition digitVal :: "char \<Rightarrow> int" where
  "digitVal ch = int (of_char ch) - 48"

definition Atoi :: "string \<Rightarrow> int option" where
  "Atoi s0 =
     (let signed = (s0 \<noteq> [] \<and> (hd s0 = CHR ''-'' \<or> hd s0 = CHR ''+''));
          s = (if signed then tl s0 else s0)
      in if s = [] \<or> list_ex (\<lambda>ch. \<not> isDigit ch) s then None
         else
           (let n = foldl (\<lambda>n ch. n * 10 + digitVal ch) 0 s;
                v = (if hd s0 = CHR ''-'' then - n else n)
            in if - (2 ^ 63) \<le> v \<and> v \<le> 2 ^ 63 - 1 then Some v else None))"

text \<open>
  \<^verbatim>\<open>time.Duration(expiresIn) * time.Second\<close> is a product of \<^verbatim>\<open>int64\<close> values: it wraps.
\<close>

definition Share :: "'b S3Properties \<Rightarrow> Values \<Rightarrow> 'b \<Rightarrow> 'b outcome" where
  "Share sc q s =
     (let fileKey = Get q ''fileKey'';
          expiresInStr = Get q ''expiresIn''
      in if fileKey = [] then finish (Error ''fileKey is required'' StatusBadRequest) [] s
         else
           (case Atoi expiresInStr of
              None \<Rightarrow>
                finish (Error ''Invalid or missing expiresIn parameter'' StatusBadRequest) [] s
            | Some expiresIn \<Rightarrow>
                if expiresIn \<le> 0 then
                  finish (Error ''Invalid or missing expiresIn parameter'' StatusBadRequest) [] s
                else
                  (let expires = (word_of_int expiresIn :: int64) * Second;
                       c = Call_PresignGetObject (bucketName sc) fileKey ''attachment'' expires
                   in case s3_PresignGetObject (s3Client sc) (bucketName sc) fileKey
                             ''attachment'' expires s of
                        (Inl err, s') \<Rightarrow>
                          finish (Error (''Failed to generate presigned URL: '' @ err)
                            StatusInternalServerError) [c] s'
                      | (Inr url, s') \<Rightarrow>
                          finish (Encode \<lparr>Status = 200, Payload = PString url\<rparr>) [c] s')))"

section \<open>An in-memory client\<close>

text \<open>
  A small client to run the handlers on concrete requests: the bucket is a list of keys
  with their sizes, and a list of scripted faults decides which of the coming calls fail
  (\<open>Some message\<close>) before they take effect. A call with no fault scripted acts on
  the list as the storage service acts on a bucket; a completion records the number of
  parts as the size of the new object, the bytes of the parts being out of sight.
\<close>

record Mem =
  objects :: "(string \<times> int64) list"
  faults :: "string option list"

definition nextFault :: "Mem \<Rightarrow> string option \<times> Mem" where
  "nextFault m = (case faults m of [] \<Rightarrow> (None, m) | f # fs \<Rightarrow> (f, m\<lparr>faults := fs\<rparr>))"

definition guarded :: "(Mem \<Rightarrow> (string + 'a) \<times> Mem) \<Rightarrow> Mem \<Rightarrow> (string + 'a) \<times> Mem" where
  "guarded f m = (case nextFault m of (Some e, m') \<Rightarrow> (Inl e, m') | (None, m') \<Rightarrow> f m')"

definition putObject :: "string \<Rightarrow> int64 \<Rightarrow> Mem \<Rightarrow> Mem" where
  "putObject k n m = m\<lparr>objects := (k, n) # filter (\<lambda>e. fst e \<noteq> k) (objects m)\<rparr>"

definition memCopyObject :: "string \<Rightarrow> string \<Rightarrow> string \<Rightarrow> Mem \<Rightarrow> (string + unit) \<times> Mem" where
  "memCopyObject b src k =
     guarded (\<lambda>m.
       if take (length b + 1) src = b @ ''/'' then
         (case map_of (objects m) (drop (length b + 1) src) of
            None \<Rightarrow> (Inl ''NoSuchKey'', m)
          | Some n \<Rightarrow> (Inr (), putObject k n m))
       else (Inl ''NoSuchBucket'', m))"

definition memClient :: "Mem S3Client" where
  "memClient =
     \<lparr>s3_CreateMultipartUpload =
        (\<lambda>b k. guarded (\<lambda>m. (Inr \<lparr>UploadId = Some ''upload-1'', UploadKey = Some k\<rparr>, m))),
      s3_PresignUploadPart =
        (\<lambda>b k u pn d. guarded (\<lambda>m. (Inr (''https://'' @ b @ ''/'' @ k), m))),
      s3_CompleteMultipartUpload =
        (\<lambda>b k u parts. guarded (\<lambda>m. (Inr (), putObject k (of_nat (length parts)) m))),
      s3_HeadObject =
        (\<lambda>b k. guarded (\<lambda>m.
           case map_of (objects m) k of
             None \<Rightarrow> (Inl ''NotFound'', m)
           | Some n \<Rightarrow> (Inr \<lparr>ContentLength = Some n\<rparr>, m))),
      s3_ListObjectsV2 =
        (\<lambda>b p d. guarded (\<lambda>m.
           (Inr (map (\<lambda>e. \<lparr>Key = Some (fst e), Size = Some (snd e)\<rparr>)
                  (filter (\<lambda>e. prefix p (fst e)) (objects m))), m))),
      s3_DeleteObject =
        (\<lambda>b k. guarded (\<lambda>m. (Inr (), m\<lparr>objects := filter (\<lambda>e. fst e \<noteq> k) (objects m)\<rparr>))),
      s3_CopyObject = memCopyObject,
      s3_PresignGetObject =
        (\<lambda>b k disp d. guarded (\<lambda>m. (Inr (''https://'' @ b @ ''/'' @ k), m)))\<rparr>"

definition memController :: "Mem S3Properties" where
  "memController = \<lparr>s3Client = memClient, bucketName = ''bucket''\<rparr>"

section \<open>Reading an outcome\<close>

text \<open>The array of a success envelope that carries signed URLs.\<close>

definition issuedUrls :: "'b outcome \<Rightarrow> SignedUrl list option" where
  "issuedUrls r =
     (case writes r of
        [Encode resp] \<Rightarrow>
          (case Payload resp of
             PUrls us \<Rightarrow> if Status resp = 200 then Some us else None
           | _ \<Rightarrow> None)
      | _ \<Rightarrow> None)"

text \<open>The presign call the issuer makes for part \<open>j\<close>.\<close>

definition presignCall :: "'b S3Properties \<Rightarrow> int RequestBody \<Rightarrow> int \<Rightarrow> call" where
  "presignCall sc requestBody j =
     Call_PresignUploadPart (bucketName sc) (FileKey requestBody) (FileId requestBody)
       (word_of_int j) (15 * Minute)"

text \<open>
  In the spec's words, the issuer mints one authorization for each part number of a list,
  in this order. \<open>presignedUrls\<close> is that run on the client: the presign call for each
  part number in turn, each on the backend state the call before it left. It gives the
  URLs the calls returned, in the order of the part numbers, or the error of the first
  call that failed.
\<close>

fun presignedUrls ::
  "'b S3Properties \<Rightarrow> int RequestBody \<Rightarrow> int list \<Rightarrow> 'b \<Rightarrow> (string + string list) \<times> 'b" where
  "presignedUrls sc requestBody [] s = (Inr [], s)"
| "presignedUrls sc requestBody (j # js) s =
     (case s3_PresignUploadPart (s3Client sc) (bucketName sc) (FileKey requestBody)
             (FileId requestBody) (word_of_int j) (15 * Minute) s of
        (Inl err, s') \<Rightarrow> (Inl err, s')
      | (Inr url, s') \<Rightarrow>
          (case presignedUrls sc requestBody js s' of
             (Inl err, s'') \<Rightarrow> (Inl err, s'')
           | (Inr urls, s'') \<Rightarrow> (Inr (url # urls), s'')))"

declare presignLoop.simps [simp del]

text \<open>
  What the rename relies on from the storage service, in terms of the object \<open>obj s k\<close>
  that a backend state \<open>s\<close> holds under the key \<open>k\<close>: a copy or a delete that fails
  changes no object, and a copy that succeeds from the source \<^verbatim>\<open>bucket/old\<close> found an
  object under \<open>old\<close>, left it there and stored it under the new key as well.
\<close>

definition storeContract :: "'b S3Client \<Rightarrow> ('b \<Rightarrow> string \<Rightarrow> 'o option) \<Rightarrow> bool" where
  "storeContract c obj \<longleftrightarrow>
     (\<forall>b src k s err s'. s3_CopyObject c b src k s = (Inl err, s') \<longrightarrow> obj s' = obj s) \<and>
     (\<forall>b k s err s'. s3_DeleteObject c b k s = (Inl err, s') \<longrightarrow> obj s' = obj s) \<and>
     (\<forall>b old k s u s'. s3_CopyObject c b (b @ ''/'' @ old) k s = (Inr u, s') \<longrightarrow>
        obj s old \<noteq> None \<and> obj s' old = obj s old \<and> obj s' k = obj s old)"

section \<open>Sorting the reported parts\<close>

lemma mset_insertLess: "mset (insertLess lt x ys) = add_mset x (mset ys)"
  by (induction ys) auto

lemma set_insertLess: "set (insertLess lt x ys) = insert x (set ys)"
  by (induction ys) auto

text \<open>The part before position i, read from the right, descends.\<close>

lemma sorted_insertLess:
  "sorted (rev (map key ys)) \<Longrightarrow>
   sorted (rev (map (key :: 'a \<Rightarrow> int) (insertLess (\<lambda>a b. key a < key b) x ys)))"
proof (induction ys)
  case Nil
  then show ?case by simp
next
  case (Cons y ys)
  then show ?case
    by (auto simp: sorted_append set_insertLess)
qed

lemma foldl_insertLess:
  "sorted (rev (map key acc)) \<Longrightarrow>
   mset (foldl (\<lambda>acc x. insertLess (\<lambda>a b. key a < key b) x acc) acc xs) = mset acc + mset xs \<and>
   sorted (rev (map (key :: 'a \<Rightarrow> int) (foldl (\<lambda>acc x. insertLess (\<lambda>a b. key a < key b) x acc) acc xs)))"
proof (induction xs arbitrary: acc)
  case Nil
  then show ?case by simp
next
  case (Cons x xs)
  from Cons.prems have "sorted (rev (map key (insertLess (\<lambda>a b. key a < key b) x acc)))"
    by (rule sorted_insertLess)
  from Cons.IH [OF this] show ?case
    by (simp add: mset_insertLess)
qed

lemma insertionSort_contract: "sortSliceContract insertionSortLessFunc"
  unfolding sortSliceContract_def insertionSortLessFunc_def
proof (intro allI)
  fix key :: "'a \<Rightarrow> int" and xs :: "'a list"
  show "mset (rev (foldl (\<lambda>acc x. insertLess (\<lambda>a b. key a < key b) x acc) [] xs)) = mset xs \<and>
        sorted (map key (rev (foldl (\<lambda>acc x. insertLess (\<lambda>a b. key a < key b) x acc) [] xs)))"
    using foldl_insertLess [of key "[]" xs] by (simp add: rev_map)
qed

lemma sorted_distinct_keys_unique:
  fixes key :: "'a \<Rightarrow> int"
  assumes "mset m = mset ps" and "sorted (map key m)" and "distinct (map key ps)"
  shows "m = sort_key key ps"
proof -
  have mk: "mset (map key m) = mset (map key ps)"
    using assms(1) by simp
  have d: "distinct (map key m)"
    using mk assms(3) by (metis mset_eq_imp_distinct_iff)
  have "map key m = map key (sort_key key ps)"
  proof (rule sorted_distinct_set_unique)
    show "sorted (map key m)" by (rule assms(2))
    show "distinct (map key m)" by (rule d)
    show "sorted (map key (sort_key key ps))" by simp
    show "distinct (map key (sort_key key ps))"
    proof -
      have "mset (map key (sort_key key ps)) = mset (map key ps)" by simp
      then show ?thesis using assms(3) by (metis mset_eq_imp_distinct_iff)
    qed
    show "set (map key m) = set (map key (sort_key key ps))"
      using mk by (metis mset_eq_setD mset_map mset_sort)
  qed
  moreover have "inj_on key (set m \<union> set (sort_key key ps))"
    using assms(1,3) by (metis distinct_map mset_eq_setD set_sort sup.idem)
  ultimately show ?thesis
    by (rule inj_on_map_eq_map [THEN iffD1, rotated]) 
qed

lemma copy_parts_id:
  "map (\<lambda>part. \<lparr>ETag = ETag part, PartNumber = PartNumber part\<rparr>) ps = ps"
  by (induction ps) auto

lemma sortParts_sorted:
  assumes "sortSliceContract srt" and "list_all (\<lambda>p. PartNumber p \<noteq> None) ps"
  shows "\<exists>m. sortParts srt ps = Some m \<and> mset m = mset ps \<and> sorted (map partKey m)"
proof (cases "length ps < 2")
  case True
  then have "sorted (map partKey ps)"
    by (cases ps) (auto simp: less_Suc_eq)
  with True show ?thesis by (simp add: sortParts_def)
next
  case False
  have l: "lessPart = (\<lambda>a b. partKey a < partKey b)"
    by (intro ext) (simp add: lessPart_def)
  have "\<not> list_ex (\<lambda>p. PartNumber p = None) ps"
    using assms(2) by (simp add: list_all_iff list_ex_iff)
  with False have "sortParts srt ps = Some (srt lessPart ps)"
    by (simp add: sortParts_def)
  moreover have "mset (srt lessPart ps) = mset ps \<and> sorted (map partKey (srt lessPart ps))"
    using assms(1) unfolding sortSliceContract_def l by blast
  ultimately show ?thesis by simp
qed

lemma submittedManifest_Complete:
  "sortParts srt (Parts (fst dec)) = Some m \<Longrightarrow>
   submittedManifest (CompleteMultipartUpload srt sc dec s) = Some m"
  by (simp add: CompleteMultipartUpload_def submittedManifest_def Let_def copy_parts_id
      finish_def split: prod.splits sum.splits)

text \<open>
  Claim C1. Whatever order the client reports its part descriptors in, the manifest that
  the finalizer submits to the backend's completion call is a rearrangement of the
  reported parts in which the part numbers ascend. When the part numbers are pairwise
  different (the parts come in a permutation of their numbers), the manifest is the
  ascending-sorted sequence of the reported parts. This holds for every sorting routine
  that meets the contract of \<^verbatim>\<open>sort.Slice\<close>, every backend, and whether or not the body
  decoded cleanly. The witness runs the handler on the parts numbered 3, 1, 2.
\<close>

theorem finalizer_manifest_sorted:
  assumes "sortSliceContract srt" and "list_all (\<lambda>p. PartNumber p \<noteq> None) (Parts body)"
  shows "\<exists>m. submittedManifest (CompleteMultipartUpload srt sc (body, err) s) = Some m \<and>
             mset m = mset (Parts body) \<and> sorted (map partKey m) \<and>
             (distinct (map partKey (Parts body)) \<longrightarrow> m = sort_key partKey (Parts body))"
proof -
  from sortParts_sorted [OF assms] obtain m where
    m: "sortParts srt (Parts body) = Some m" "mset m = mset (Parts body)" "sorted (map partKey m)"
    by blast
  from m(1) have "submittedManifest (CompleteMultipartUpload srt sc (body, err) s) = Some m"
    by (simp add: submittedManifest_Complete)
  moreover have "distinct (map partKey (Parts body)) \<longrightarrow> m = sort_key partKey (Parts body)"
    using m(2,3) by (blast intro: sorted_distinct_keys_unique)
  ultimately show ?thesis using m(2,3) by blast
qed

theorem finalizer_manifest_sorted_witness:
  "sortSliceContract (insertionSortLessFunc :: CompletedPart sorter) \<and>
   list_all (\<lambda>p. PartNumber p \<noteq> None)
     [\<lparr>ETag = Some ''c'', PartNumber = Some 3\<rparr>, \<lparr>ETag = Some ''a'', PartNumber = Some 1\<rparr>,
      \<lparr>ETag = Some ''b'', PartNumber = Some 2\<rparr>] \<and>
   submittedManifest
     (CompleteMultipartUpload insertionSortLessFunc memController
        (\<lparr>FileKey = ''k'', FileId = ''u'',
          Parts = [\<lparr>ETag = Some ''c'', PartNumber = Some 3\<rparr>,
                   \<lparr>ETag = Some ''a'', PartNumber = Some 1\<rparr>,
                   \<lparr>ETag = Some ''b'', PartNumber = Some 2\<rparr>]\<rparr>, None)
        \<lparr>objects = [], faults = []\<rparr>) =
     Some [\<lparr>ETag = Some ''a'', PartNumber = Some 1\<rparr>, \<lparr>ETag = Some ''b'', PartNumber = Some 2\<rparr>,
           \<lparr>ETag = Some ''c'', PartNumber = Some 3\<rparr>]"
proof -
  let ?ps = "[\<lparr>ETag = Some ''c'', PartNumber = Some (3 :: int32)\<rparr>,
              \<lparr>ETag = Some ''a'', PartNumber = Some 1\<rparr>, \<lparr>ETag = Some ''b'', PartNumber = Some 2\<rparr>]"
  let ?body = "\<lparr>FileKey = ''k'', FileId = ''u'', Parts = ?ps\<rparr>"
  have c: "sortSliceContract (insertionSortLessFunc :: CompletedPart sorter)"
    by (rule insertionSort_contract)
  have a: "list_all (\<lambda>p. PartNumber p \<noteq> None) (Parts ?body)"
    by simp
  have d: "distinct (map partKey (Parts ?body))"
    by (simp add: partKey_def)
  have srt: "sort_key partKey (Parts ?body) =
      [\<lparr>ETag = Some ''a'', PartNumber = Some 1\<rparr>, \<lparr>ETag = Some ''b'', PartNumber = Some 2\<rparr>,
       \<lparr>ETag = Some ''c'', PartNumber = Some 3\<rparr>]"
    by (simp add: partKey_def)
  from finalizer_manifest_sorted [OF c a, of memController None "\<lparr>objects = [], faults = []\<rparr>"] d srt
  show ?thesis using c by auto
qed

section \<open>The part URL issuer\<close>

lemma issuedUrls_finish_Error [simp]: "issuedUrls (finish (Error msg code) cs s) = None"
  by (simp add: issuedUrls_def finish_def)

lemma issuedUrls_finish_Urls [simp]:
  "issuedUrls (finish (Encode \<lparr>Status = 200, Payload = PUrls us\<rparr>) cs s) = Some us"
  by (simp add: issuedUrls_def finish_def)

lemma issuedUrls_panic [simp]: "issuedUrls (panic cs s) = None"
  by (simp add: issuedUrls_def panic_def)

lemma finish_sel [simp]:
  "writes (finish wr cs s) = [wr]" "calls (finish wr cs s) = cs"
  "ended (finish wr cs s) = Returned" "backend (finish wr cs s) = s"
  by (simp_all add: finish_def)

lemma panic_sel [simp]:
  "writes (panic cs s) = []" "calls (panic cs s) = cs"
  "ended (panic cs s) = Panicked" "backend (panic cs s) = s"
  by (simp_all add: panic_def)

lemma presignedUrls_length:
  "presignedUrls sc body js s = (Inr urls, s') \<Longrightarrow> length urls = length js"
proof (induction js arbitrary: s urls)
  case Nil
  then show ?case by simp
next
  case (Cons j js)
  then show ?case
    by (auto split: prod.splits sum.splits)
qed

lemma presignLoop_run:
  "1 \<le> i \<Longrightarrow> length urls = nat (Parts body) \<Longrightarrow>
   (\<forall>us s'. presignedUrls sc body [i..Parts body] s = (Inr us, s') \<longrightarrow>
      presignLoop sc body i urls cs s =
        finish (Encode \<lparr>Status = 200, Payload = PUrls
                  (take (nat (i - 1)) urls @
                   map (\<lambda>e. \<lparr>signedUrl = snd e, partNumber = word_of_int (fst e)\<rparr>)
                     (zip [i..Parts body] us))\<rparr>)
          (cs @ map (presignCall sc body) [i..Parts body]) s') \<and>
   (\<forall>err s'. presignedUrls sc body [i..Parts body] s = (Inl err, s') \<longrightarrow>
      writes (presignLoop sc body i urls cs s) =
        [Error (''Failed to generate presigned URL: '' @ err) StatusInternalServerError] \<and>
      ended (presignLoop sc body i urls cs s) = Returned \<and>
      backend (presignLoop sc body i urls cs s) = s')"
proof (induction sc body i urls cs s rule: presignLoop.induct)
  case (1 sc body i urls cs s)
  let ?pn = "word_of_int i :: int32"
  let ?c = "Call_PresignUploadPart (bucketName sc) (FileKey body) (FileId body) ?pn (15 * Minute)"
  show ?case
  proof (cases "i \<le> Parts body")
    case False
    then have unf: "presignLoop sc body i urls cs s =
        finish (Encode \<lparr>Status = 200, Payload = PUrls urls\<rparr>) cs s"
      by (subst presignLoop.simps) simp
    from False have e: "[i..Parts body] = []" by simp
    from False "1.prems" have "take (nat (i - 1)) urls = urls" by simp
    then show ?thesis unfolding unf e by simp
  next
    case True
    then have u: "[i..Parts body] = i # [i + 1..Parts body]"
      by (simp add: upto_rec1)
    obtain res s1 where call:
      "s3_PresignUploadPart (s3Client sc) (bucketName sc) (FileKey body) (FileId body) ?pn
         (15 * Minute) s = (res, s1)"
      by (cases "s3_PresignUploadPart (s3Client sc) (bucketName sc) (FileKey body) (FileId body)
         ?pn (15 * Minute) s")
    show ?thesis
    proof (cases res)
      case (Inl err)
      with True call have unf: "presignLoop sc body i urls cs s =
          finish (Error (''Failed to generate presigned URL: '' @ err)
            StatusInternalServerError) (cs @ [?c]) s1"
        by (subst presignLoop.simps) (simp add: Let_def)
      show ?thesis unfolding unf u using call Inl by simp
    next
      case (Inr url)
      let ?e = "\<lparr>signedUrl = url, partNumber = ?pn\<rparr>"
      let ?urls = "urls[nat (i - 1) := ?e]"
      have rng: "1 \<le> i \<and> i - 1 < int (length urls)"
        using True "1.prems" by simp
      have unf: "presignLoop sc body i urls cs s =
          presignLoop sc body (i + 1) ?urls (cs @ [?c]) s1"
        using True call Inr rng by (subst presignLoop.simps) (simp add: Let_def)
      have tk: "take (nat (i + 1 - 1)) ?urls = take (nat (i - 1)) urls @ [?e]"
      proof -
        have "nat (i + 1 - 1) = Suc (nat (i - 1))" using rng by linarith
        moreover have "nat (i - 1) < length urls" using rng by linarith
        then have "nat (i - 1) < length ?urls" by simp
        ultimately show ?thesis
          by (simp add: take_Suc_conv_app_nth)
      qed
      note IH = "1.IH" [OF True refl refl call [symmetric] Inr rng]
      have IH': "(\<forall>us s'. presignedUrls sc body [i + 1..Parts body] s1 = (Inr us, s') \<longrightarrow>
          presignLoop sc body (i + 1) ?urls (cs @ [?c]) s1 =
            finish (Encode \<lparr>Status = 200, Payload = PUrls
                  (take (nat (i + 1 - 1)) ?urls @
                   map (\<lambda>e. \<lparr>signedUrl = snd e, partNumber = word_of_int (fst e)\<rparr>)
                     (zip [i + 1..Parts body] us))\<rparr>)
              ((cs @ [?c]) @ map (presignCall sc body) [i + 1..Parts body]) s') \<and>
        (\<forall>err s'. presignedUrls sc body [i + 1..Parts body] s1 = (Inl err, s') \<longrightarrow>
          writes (presignLoop sc body (i + 1) ?urls (cs @ [?c]) s1) =
            [Error (''Failed to generate presigned URL: '' @ err) StatusInternalServerError] \<and>
          ended (presignLoop sc body (i + 1) ?urls (cs @ [?c]) s1) = Returned \<and>
          backend (presignLoop sc body (i + 1) ?urls (cs @ [?c]) s1) = s')"
        using IH "1.prems" by simp
      show ?thesis
        unfolding unf u using call Inr IH' tk
        by (auto simp: presignCall_def split: prod.splits sum.splits)
    qed
  qed
qed

text \<open>
  The presign calls of a run all succeed over a client that answers the calls for these
  part numbers on every state of an invariant that it keeps.
\<close>

lemma presignedUrls_succeeds:
  assumes "\<forall>j t. j \<in> set js \<and> I t \<longrightarrow>
     (\<exists>url t'. s3_PresignUploadPart (s3Client sc) (bucketName sc) (FileKey body) (FileId body)
                  (word_of_int j) (15 * Minute) t = (Inr url, t') \<and> I t')"
    and "I s"
  shows "\<exists>urls s'. presignedUrls sc body js s = (Inr urls, s') \<and> I s'"
  using assms
proof (induction js arbitrary: s)
  case Nil
  then show ?case by simp
next
  case (Cons j js)
  from Cons.prems obtain url s1 where
    c: "s3_PresignUploadPart (s3Client sc) (bucketName sc) (FileKey body) (FileId body)
          (word_of_int j) (15 * Minute) s = (Inr url, s1)" and i: "I s1"
    by (metis list.set_intros(1))
  from Cons.prems(1) have "\<forall>j t. j \<in> set js \<and> I t \<longrightarrow>
     (\<exists>url t'. s3_PresignUploadPart (s3Client sc) (bucketName sc) (FileKey body) (FileId body)
                  (word_of_int j) (15 * Minute) t = (Inr url, t') \<and> I t')"
    by simp
  from Cons.IH [OF this i] obtain urls s' where
    "presignedUrls sc body js s1 = (Inr urls, s')" "I s'" by blast
  with c show ?case by simp
qed

lemma issuer_allocation_fails:
  "int maxLen < Parts body \<Longrightarrow> GeneratePresignedUrl maxLen sc (body, None) s = panic [] s"
  by (simp add: GeneratePresignedUrl_def)

lemma sint_partNumber:
  assumes "1 \<le> j" and "j \<le> 2147483647"
  shows "sint (word_of_int j :: int32) = j"
  using assms by (simp add: sint_sbintrunc' signed_take_bit_int_eq_self)

lemma issuer_run:
  assumes "0 \<le> Parts body" and "Parts body \<le> int maxLen"
  shows
    "(\<forall>urls s'. presignedUrls sc body [1..Parts body] s = (Inr urls, s') \<longrightarrow>
        GeneratePresignedUrl maxLen sc (body, None) s =
          finish (Encode \<lparr>Status = 200, Payload = PUrls
                    (map (\<lambda>e. \<lparr>signedUrl = snd e, partNumber = word_of_int (fst e)\<rparr>)
                       (zip [1..Parts body] urls))\<rparr>)
            (map (presignCall sc body) [1..Parts body]) s') \<and>
     (\<forall>err s'. presignedUrls sc body [1..Parts body] s = (Inl err, s') \<longrightarrow>
        writes (GeneratePresignedUrl maxLen sc (body, None) s) =
          [Error (''Failed to generate presigned URL: '' @ err) StatusInternalServerError] \<and>
        ended (GeneratePresignedUrl maxLen sc (body, None) s) = Returned \<and>
        backend (GeneratePresignedUrl maxLen sc (body, None) s) = s')"
proof -
  let ?urls = "replicate (nat (Parts body)) \<lparr>signedUrl = [], partNumber = 0\<rparr>"
  have g: "GeneratePresignedUrl maxLen sc (body, None) s = presignLoop sc body 1 ?urls [] s"
    using assms by (simp add: GeneratePresignedUrl_def)
  have "length ?urls = nat (Parts body)" by simp
  from presignLoop_run [where i = 1 and cs = "[]" and sc = sc and s = s, OF _ this]
  show ?thesis unfolding g by simp
qed

text \<open>
  Claim C2, amended. For every part count from 1 to 2147483647 (the largest \<^verbatim>\<open>int32\<close>)
  for which the slice is allocated, and a body that decoded cleanly: whenever every
  presign call that the issuer makes succeeds, that is the calls for the part numbers 1
  up to the part count, each on the state the call before it left, the issuer answers
  with the success envelope whose array holds exactly as many entries as parts were asked
  for; their part numbers are 1, 2, ... up to the part count in this order, and the
  signed URL of each entry is the URL that the presign call for its part returned, one
  authorization per requested part. These presign calls are all the calls it made. When
  one of the calls fails, the issuer answers with the error of that call and status 500.
\<close>

theorem issuer_returns_parts_in_order:
  assumes "1 \<le> Parts body" and "Parts body \<le> 2147483647" and "Parts body \<le> int maxLen"
  shows
    "(\<forall>urls s'. presignedUrls sc body [1..Parts body] s = (Inr urls, s') \<longrightarrow>
        (\<exists>us. GeneratePresignedUrl maxLen sc (body, None) s =
                \<lparr>writes = [Encode \<lparr>Status = 200, Payload = PUrls us\<rparr>],
                 calls = map (presignCall sc body) [1..Parts body],
                 ended = Returned, backend = s'\<rparr> \<and>
              length us = nat (Parts body) \<and>
              map (sint \<circ> partNumber) us = [1..Parts body] \<and>
              map signedUrl us = urls)) \<and>
     (\<forall>err s'. presignedUrls sc body [1..Parts body] s = (Inl err, s') \<longrightarrow>
        writes (GeneratePresignedUrl maxLen sc (body, None) s) =
          [Error (''Failed to generate presigned URL: '' @ err) StatusInternalServerError] \<and>
        ended (GeneratePresignedUrl maxLen sc (body, None) s) = Returned \<and>
        backend (GeneratePresignedUrl maxLen sc (body, None) s) = s')"
proof -
  let ?n = "Parts body"
  from assms have n0: "0 \<le> ?n" by simp
  note run = issuer_run [OF n0 assms(3), of sc s]
  have ok: "\<forall>urls s'. presignedUrls sc body [1..?n] s = (Inr urls, s') \<longrightarrow>
        (\<exists>us. GeneratePresignedUrl maxLen sc (body, None) s =
                \<lparr>writes = [Encode \<lparr>Status = 200, Payload = PUrls us\<rparr>],
                 calls = map (presignCall sc body) [1..?n],
                 ended = Returned, backend = s'\<rparr> \<and>
              length us = nat ?n \<and>
              map (sint \<circ> partNumber) us = [1..?n] \<and>
              map signedUrl us = urls)"
  proof (intro allI impI)
    fix urls s'
    assume p: "presignedUrls sc body [1..?n] s = (Inr urls, s')"
    let ?us = "map (\<lambda>e. \<lparr>signedUrl = snd e, partNumber = word_of_int (fst e)\<rparr>) (zip [1..?n] urls)"
    from presignedUrls_length [OF p] have len: "length urls = length [1..?n]" .
    have a: "GeneratePresignedUrl maxLen sc (body, None) s =
                \<lparr>writes = [Encode \<lparr>Status = 200, Payload = PUrls ?us\<rparr>],
                 calls = map (presignCall sc body) [1..?n],
                 ended = Returned, backend = s'\<rparr>"
      using run p by (simp add: finish_def)
    have b: "length ?us = nat ?n"
      using len n0 by simp
    have c1: "map (sint \<circ> partNumber) ?us =
        map (\<lambda>j. sint (word_of_int j :: int32)) (map fst (zip [1..?n] urls))"
      by (simp add: comp_def)
    have c2: "map fst (zip [1..?n] urls) = [1..?n]"
      using len by simp
    have c3: "map (\<lambda>j. sint (word_of_int j :: int32)) [1..?n] = map (\<lambda>j. j) [1..?n]"
      using assms(2) by (intro map_cong refl sint_partNumber) auto
    have c: "map (sint \<circ> partNumber) ?us = [1..?n]"
      by (simp only: c1 c2 c3 map_ident)
    have "map signedUrl ?us = map snd (zip [1..?n] urls)"
      by (simp add: comp_def)
    also have "\<dots> = urls" using len by simp
    finally have d: "map signedUrl ?us = urls" .
    from a b c d show "\<exists>us. GeneratePresignedUrl maxLen sc (body, None) s =
                \<lparr>writes = [Encode \<lparr>Status = 200, Payload = PUrls us\<rparr>],
                 calls = map (presignCall sc body) [1..?n],
                 ended = Returned, backend = s'\<rparr> \<and>
              length us = nat ?n \<and>
              map (sint \<circ> partNumber) us = [1..?n] \<and>
              map signedUrl us = urls"
      by blast
  qed
  with run show ?thesis by blast
qed

lemma mem_presign_ok:
  "faults t = [] \<Longrightarrow>
   s3_PresignUploadPart memClient b k u p d t = (Inr (''https://'' @ b @ ''/'' @ k), t)"
  by (simp add: memClient_def guarded_def nextFault_def)

theorem issuer_returns_parts_in_order_witness:
  "(1 :: int) \<le> 3 \<and> (3 :: int) \<le> 2147483647 \<and> (3 :: int) \<le> int 10000 \<and>
   (\<exists>us. GeneratePresignedUrl 10000 memController
            (\<lparr>FileKey = ''k'', FileId = ''u'', Parts = 3\<rparr>, None) \<lparr>objects = [], faults = []\<rparr> =
          \<lparr>writes = [Encode \<lparr>Status = 200, Payload = PUrls us\<rparr>],
           calls = [Call_PresignUploadPart ''bucket'' ''k'' ''u'' 1 900000000000,
                    Call_PresignUploadPart ''bucket'' ''k'' ''u'' 2 900000000000,
                    Call_PresignUploadPart ''bucket'' ''k'' ''u'' 3 900000000000],
           ended = Returned, backend = \<lparr>objects = [], faults = []\<rparr>\<rparr> \<and>
        length us = 3 \<and>
        map (sint \<circ> partNumber) us = [1, 2, 3] \<and>
        map signedUrl us = [''https://bucket/k'', ''https://bucket/k'', ''https://bucket/k''])"
proof -
  let ?body = "\<lparr>FileKey = ''k'', FileId = ''u'', Parts = 3 :: int\<rparr>"
  let ?s = "\<lparr>objects = [], faults = []\<rparr>"
  have a: "1 \<le> Parts ?body" and b: "Parts ?body \<le> 2147483647"
    and c: "Parts ?body \<le> int 10000" by simp_all
  have u: "[1..3 :: int] = [1, 2, 3]" by (simp add: upto_rec1)
  have p: "presignedUrls memController ?body [1..Parts ?body] ?s =
      (Inr [''https://bucket/k'', ''https://bucket/k'', ''https://bucket/k''], ?s)"
    by (simp add: u memController_def mem_presign_ok)
  from issuer_returns_parts_in_order [OF a b c, of memController ?s] p
  show ?thesis
    by (simp add: u presignCall_def memController_def Minute_def)
qed

text \<open>
  Claim C2 as stated, for every part count, fails at 2147483648 parts: whatever length
  the machine can allocate, the issuer does not answer with entries whose part numbers
  are 1 up to 2147483648. Where the slice is allocated and the calls succeed, the last
  entry carries the low 32 bits of its position, which is -2147483648; where it is not,
  nothing is written (\<open>issuer_allocation_fails\<close>).
\<close>

theorem issuer_part_number_wraps:
  "\<not> (\<exists>maxLen us.
        issuedUrls (GeneratePresignedUrl maxLen memController
          (\<lparr>FileKey = ''k'', FileId = ''u'', Parts = 2147483648\<rparr>, None)
          \<lparr>objects = [], faults = []\<rparr>) = Some us \<and>
        map (sint \<circ> partNumber) us = [1..2147483648])"
proof
  let ?body = "\<lparr>FileKey = ''k'', FileId = ''u'', Parts = 2147483648 :: int\<rparr>"
  let ?s = "\<lparr>objects = [], faults = []\<rparr>"
  assume "\<exists>maxLen us. issuedUrls (GeneratePresignedUrl maxLen memController (?body, None) ?s) = Some us \<and>
        map (sint \<circ> partNumber) us = [1..2147483648]"
  then obtain maxLen us where
    iu: "issuedUrls (GeneratePresignedUrl maxLen memController (?body, None) ?s) = Some us"
    and pn: "map (sint \<circ> partNumber) us = [1..2147483648]"
    by blast
  have le: "Parts ?body \<le> int maxLen"
  proof (rule ccontr)
    assume "\<not> Parts ?body \<le> int maxLen"
    then have "GeneratePresignedUrl maxLen memController (?body, None) ?s = panic [] ?s"
      by (simp add: GeneratePresignedUrl_def)
    with iu show False by simp
  qed
  have n0: "0 \<le> Parts ?body" by simp
  note run = issuer_run [OF n0 le, of memController ?s]
  obtain res s' where p: "presignedUrls memController ?body [1..Parts ?body] ?s = (res, s')"
    by (cases "presignedUrls memController ?body [1..Parts ?body] ?s")
  show False
  proof (cases res)
    case (Inl err)
    with run p have "writes (GeneratePresignedUrl maxLen memController (?body, None) ?s) =
        [Error (''Failed to generate presigned URL: '' @ err) StatusInternalServerError]"
      by blast
    with iu show False by (simp add: issuedUrls_def)
  next
    case (Inr urls)
    from presignedUrls_length [OF p [unfolded Inr]]
    have len: "length urls = length [1..Parts ?body]" .
    from run p Inr have "issuedUrls (GeneratePresignedUrl maxLen memController (?body, None) ?s) =
        Some (map (\<lambda>e. \<lparr>signedUrl = snd e, partNumber = word_of_int (fst e)\<rparr>)
                (zip [1..Parts ?body] urls))"
      by simp
    with iu have us: "us = map (\<lambda>e. \<lparr>signedUrl = snd e, partNumber = word_of_int (fst e)\<rparr>)
                (zip [1..Parts ?body] urls)"
      by simp
    have c1: "map (sint \<circ> partNumber) us =
        map (\<lambda>j. sint (word_of_int j :: int32)) (map fst (zip [1..Parts ?body] urls))"
      unfolding us by (simp add: comp_def)
    have c2: "map fst (zip [1..Parts ?body] urls) = [1..Parts ?body]"
      using len by simp
    have "map (\<lambda>j. sint (word_of_int j :: int32)) [1..Parts ?body] = [1..2147483648]"
      using pn by (simp only: c1 c2)
    then have "map (\<lambda>j. sint (word_of_int j :: int32)) [1..2147483648] = map (\<lambda>j. j) [1..2147483648]"
      by simp
    then have "\<forall>j \<in> set [1..2147483648 :: int]. sint (word_of_int j :: int32) = j"
      by (simp only: map_eq_conv)
    moreover have "(2147483648 :: int) \<in> set [1..2147483648]"
      by simp
    ultimately have "sint (word_of_int 2147483648 :: int32) = 2147483648"
      by blast
    then show False
      by (simp add: sint_sbintrunc')
  qed
qed

text \<open>
  Claim C10. Asked for zero parts by a body that decoded cleanly, the part URL issuer
  does not fail: it writes one success envelope of status 200 whose payload is the empty
  array, makes no presign call and leaves the backend as it was.
\<close>

theorem issuer_zero_parts:
  "GeneratePresignedUrl maxLen sc (body\<lparr>Parts := 0\<rparr>, None) s =
     \<lparr>writes = [Encode \<lparr>Status = 200, Payload = PUrls []\<rparr>], calls = [], ended = Returned,
      backend = s\<rparr>"
  by (simp add: GeneratePresignedUrl_def presignLoop.simps finish_def)

text \<open>
  Claim C7 says that every handler writes exactly one response whatever the request. The
  part URL issuer does not: asked for -1 parts, the allocation of the slice panics before
  anything is written, so the handler ends with no response at all. The finalizer does
  the same on two or more parts of which one has no part number.
\<close>

theorem issuer_negative_parts_no_response:
  "writes (GeneratePresignedUrl maxLen sc (body\<lparr>Parts := - 1\<rparr>, None) s) = [] \<and>
   calls (GeneratePresignedUrl maxLen sc (body\<lparr>Parts := - 1\<rparr>, None) s) = [] \<and>
   ended (GeneratePresignedUrl maxLen sc (body\<lparr>Parts := - 1\<rparr>, None) s) = Panicked"
  by (simp add: GeneratePresignedUrl_def)

lemma finalizer_missing_part_number_panics:
  "2 \<le> length (Parts body) \<Longrightarrow> list_ex (\<lambda>p. PartNumber p = None) (Parts body) \<Longrightarrow>
   CompleteMultipartUpload srt sc (body, err) s = panic [] s"
  by (simp add: CompleteMultipartUpload_def sortParts_def)

text \<open>
  What does hold of every handler and every request: a handler that returns has written
  exactly one response, and a handler that panics has written none.
\<close>

lemma presignLoop_writes_once:
  "length (writes (presignLoop sc body i urls cs s)) =
     (if ended (presignLoop sc body i urls cs s) = Returned then 1 else 0)"
proof (induction sc body i urls cs s rule: presignLoop.induct)
  case (1 sc body i urls cs s)
  show ?case
  proof (cases "i \<le> Parts body")
    case False
    then have "presignLoop sc body i urls cs s =
        finish (Encode \<lparr>Status = 200, Payload = PUrls urls\<rparr>) cs s"
      by (subst presignLoop.simps) simp
    then show ?thesis by simp
  next
    case True
    obtain res s' where call:
      "s3_PresignUploadPart (s3Client sc) (bucketName sc) (FileKey body) (FileId body)
         (word_of_int i) (15 * Minute) s = (res, s')"
      by (cases "s3_PresignUploadPart (s3Client sc) (bucketName sc) (FileKey body) (FileId body)
         (word_of_int i) (15 * Minute) s")
    show ?thesis
    proof (cases res)
      case (Inl err)
      with True call have "presignLoop sc body i urls cs s =
          finish (Error (''Failed to generate presigned URL: '' @ err)
            StatusInternalServerError)
            (cs @ [Call_PresignUploadPart (bucketName sc) (FileKey body) (FileId body)
                     (word_of_int i) (15 * Minute)]) s'"
        by (subst presignLoop.simps) (simp add: Let_def)
      then show ?thesis by simp
    next
      case (Inr url)
      show ?thesis
      proof (cases "1 \<le> i \<and> i - 1 < int (length urls)")
        case False
        with True call Inr have "presignLoop sc body i urls cs s =
            panic (cs @ [Call_PresignUploadPart (bucketName sc) (FileKey body) (FileId body)
                     (word_of_int i) (15 * Minute)]) s'"
          by (subst presignLoop.simps) (auto simp: Let_def)
        then show ?thesis by simp
      next
        case rng: True
        with True call Inr have "presignLoop sc body i urls cs s =
            presignLoop sc body (i + 1)
              (urls[nat (i - 1) := \<lparr>signedUrl = url, partNumber = word_of_int i\<rparr>])
              (cs @ [Call_PresignUploadPart (bucketName sc) (FileKey body) (FileId body)
                     (word_of_int i) (15 * Minute)]) s'"
          by (subst presignLoop.simps) (simp add: Let_def)
        with "1.IH" [OF True refl refl call [symmetric] Inr rng]
        show ?thesis by simp
      qed
    qed
  qed
qed

lemma presignLoop_panicked:
  "ended (presignLoop sc body i urls cs s) \<noteq> Returned \<Longrightarrow>
   writes (presignLoop sc body i urls cs s) = []"
  using presignLoop_writes_once [of sc body i urls cs s] by simp

lemma handlers_write_once:
  "length (writes (InitiateMultipartUpload sc d1 s)) =
     (if ended (InitiateMultipartUpload sc d1 s) = Returned then 1 else 0)"
  "length (writes (GeneratePresignedUrl maxLen sc d2 s)) =
     (if ended (GeneratePresignedUrl maxLen sc d2 s) = Returned then 1 else 0)"
  "length (writes (CompleteMultipartUpload srt sc d3 s)) =
     (if ended (CompleteMultipartUpload srt sc d3 s) = Returned then 1 else 0)"
  "length (writes (List sc q s)) = (if ended (List sc q s) = Returned then 1 else 0)"
  "length (writes (Remove sc q s)) = 1 \<and> ended (Remove sc q s) = Returned"
  "length (writes (Rename sc q s)) = 1 \<and> ended (Rename sc q s) = Returned"
  "length (writes (Share sc q s)) = 1 \<and> ended (Share sc q s) = Returned"
  by (simp_all add: InitiateMultipartUpload_def GeneratePresignedUrl_def
      CompleteMultipartUpload_def List_def Remove_def Rename_def Share_def Let_def
      presignLoop_writes_once presignLoop_panicked
      split: prod.splits sum.splits option.splits)

section \<open>Listing\<close>

lemma HasSuffix_suffix: "HasSuffix s suf \<longleftrightarrow> suffix suf s"
proof
  assume "HasSuffix s suf"
  then have "s = take (length s - length suf) s @ suf"
    by (metis HasSuffix_def append_take_drop_id)
  then show "suffix suf s"
    by (metis suffixI)
next
  assume "suffix suf s"
  then obtain xs where "s = xs @ suf" by (auto simp: suffix_def)
  then show "HasSuffix s suf" by (simp add: HasSuffix_def)
qed

lemma filterContents_filter:
  "list_all (\<lambda>e. Key e \<noteq> None) items \<Longrightarrow>
   filterContents d items acc =
     Some (acc @ filter (\<lambda>e. if d = ''/'' then suffix ''/'' (the (Key e))
                              else \<not> suffix ''/'' (the (Key e))) items)"
  by (induction items arbitrary: acc) (auto simp: HasSuffix_suffix)

lemma filterContents_nil_key:
  "\<not> list_all (\<lambda>e. Key e \<noteq> None) items \<Longrightarrow> filterContents d items acc = None"
  by (induction items arbitrary: acc) (auto split: option.splits)

text \<open>
  Claim C3. Whatever entries the backend's listing returns for the query, each with its
  key, the listing handler answers with exactly those entries whose key ends with a slash
  when the delimiter is the single slash, and exactly those whose key does not end with a
  slash for every other delimiter, the empty one included. The entries keep the order the
  backend gave them: the payload is a filter of the backend's list. The witness is the
  listing \<open>a/\<close>, \<open>a/b.txt\<close>, \<open>c.txt\<close> under the delimiters \<open>/\<close> and empty.
\<close>

theorem list_filters_by_delimiter:
  assumes "s3_ListObjectsV2 (s3Client sc) (bucketName sc) (Get q ''prefix'')
             (Get q ''delimiter'') s = (Inr contents, s')"
    and "list_all (\<lambda>e. Key e \<noteq> None) contents"
  shows "List sc q s =
     \<lparr>writes = [Encode \<lparr>Status = 200, Payload = PObjects
         (filter (\<lambda>e. if Get q ''delimiter'' = ''/'' then suffix ''/'' (the (Key e))
                       else \<not> suffix ''/'' (the (Key e))) contents)\<rparr>],
      calls = [Call_ListObjectsV2 (bucketName sc) (Get q ''prefix'') (Get q ''delimiter'')],
      ended = Returned, backend = s'\<rparr>"
  using assms by (simp add: List_def Let_def filterContents_filter finish_def)

lemma mem_list_ok:
  "faults m = [] \<Longrightarrow>
   s3_ListObjectsV2 memClient b p d m =
     (Inr (map (\<lambda>e. \<lparr>Key = Some (fst e), Size = Some (snd e)\<rparr>)
            (filter (\<lambda>e. prefix p (fst e)) (objects m))), m)"
  by (simp add: memClient_def guarded_def nextFault_def)

theorem list_filters_by_delimiter_witness:
  "writes (List memController [''delimiter'' \<mapsto> [''/'']]
      \<lparr>objects = [(''a/'', 0), (''a/b.txt'', 5), (''c.txt'', 7)], faults = []\<rparr>) =
     [Encode \<lparr>Status = 200, Payload = PObjects [\<lparr>Key = Some ''a/'', Size = Some 0\<rparr>]\<rparr>] \<and>
   writes (List memController [''delimiter'' \<mapsto> ['''']]
      \<lparr>objects = [(''a/'', 0), (''a/b.txt'', 5), (''c.txt'', 7)], faults = []\<rparr>) =
     [Encode \<lparr>Status = 200, Payload = PObjects
        [\<lparr>Key = Some ''a/b.txt'', Size = Some 5\<rparr>, \<lparr>Key = Some ''c.txt'', Size = Some 7\<rparr>]\<rparr>]"
proof -
  let ?m = "\<lparr>objects = [(''a/'', 0), (''a/b.txt'', 5), (''c.txt'', 7)], faults = []\<rparr>"
  let ?contents = "[\<lparr>Key = Some ''a/'', Size = Some 0\<rparr>, \<lparr>Key = Some ''a/b.txt'', Size = Some 5\<rparr>,
                    \<lparr>Key = Some ''c.txt'', Size = Some 7\<rparr>]"
  have k: "list_all (\<lambda>e. Key e \<noteq> None) ?contents" by simp
  have l1: "s3_ListObjectsV2 (s3Client memController) (bucketName memController)
              (Get [''delimiter'' \<mapsto> [''/'']] ''prefix'')
              (Get [''delimiter'' \<mapsto> [''/'']] ''delimiter'') ?m = (Inr ?contents, ?m)"
    by (simp add: memController_def mem_list_ok Get_def)
  have l2: "s3_ListObjectsV2 (s3Client memController) (bucketName memController)
              (Get [''delimiter'' \<mapsto> ['''']] ''prefix'')
              (Get [''delimiter'' \<mapsto> ['''']] ''delimiter'') ?m = (Inr ?contents, ?m)"
    by (simp add: memController_def mem_list_ok Get_def)
  have g: "Get [''delimiter'' \<mapsto> [''/'']] ''delimiter'' = ''/''"
          "Get [''delimiter'' \<mapsto> ['''']] ''delimiter'' = ''''"
    by (simp_all add: Get_def)
  have sfx: "suffix ''/'' ''a/''" "\<not> suffix ''/'' ''a/b.txt''" "\<not> suffix ''/'' ''c.txt''"
    by (simp_all add: suffix_def Cons_eq_append_conv append_eq_Cons_conv)
  from list_filters_by_delimiter [OF l1 k] list_filters_by_delimiter [OF l2 k] g sfx
  show ?thesis by simp
qed

section \<open>Share links\<close>

lemma Get_missing: "q k = None \<Longrightarrow> Get q k = []"
  by (simp add: Get_def)

lemma Atoi_empty: "Atoi [] = None"
  by (simp add: Atoi_def)

text \<open>A character that is neither a digit nor a sign makes the string non-numeric.\<close>

lemma Atoi_non_numeric:
  assumes "list_ex (\<lambda>ch. \<not> isDigit ch \<and> ch \<noteq> CHR ''-'' \<and> ch \<noteq> CHR ''+'') s"
  shows "Atoi s = None"
proof -
  from assms obtain ch where ch: "ch \<in> set s" "\<not> isDigit ch" "ch \<noteq> CHR ''-''" "ch \<noteq> CHR ''+''"
    by (auto simp: list_ex_iff)
  then have ne: "s \<noteq> []" by auto
  have "ch \<in> set (if hd s = CHR ''-'' \<or> hd s = CHR ''+'' then tl s else s)"
    using ch ne by (cases s) auto
  with ch(2) have "list_ex (\<lambda>ch. \<not> isDigit ch) (if hd s = CHR ''-'' \<or> hd s = CHR ''+'' then tl s else s)"
    by (auto simp: list_ex_iff)
  with ne show ?thesis
    by (simp add: Atoi_def Let_def)
qed

lemma Atoi_examples:
  "Atoi ''0'' = Some 0" "Atoi ''-5'' = Some (- 5)" "Atoi ''abc'' = None" "Atoi ''60'' = Some 60"
  "Atoi ''9223372037'' = Some 9223372037"
  by (simp_all add: Atoi_def isDigit_def digitVal_def)

text \<open>
  Claim C4. A share request whose \<open>fileKey\<close> is empty or missing, or whose \<open>expiresIn\<close>
  is missing, does not parse as a number, or parses to zero or to a negative number, is
  answered with one error response of status 400, and no client call is made: the call
  list is empty and the backend is as it was. A missing parameter reads as the empty
  string (\<open>Get_missing\<close>), which does not parse (\<open>Atoi_empty\<close>); a string with a
  character that is neither a digit nor a sign does not parse (\<open>Atoi_non_numeric\<close>).
  The witness has \<open>expiresIn\<close> 0, -5 and \<open>abc\<close>, a missing \<open>fileKey\<close> and a missing
  \<open>expiresIn\<close>.
\<close>

theorem share_rejects_invalid_input:
  assumes "Get q ''fileKey'' = [] \<or> Atoi (Get q ''expiresIn'') = None \<or>
           (\<exists>n. Atoi (Get q ''expiresIn'') = Some n \<and> n \<le> 0)"
  shows "\<exists>msg. Share sc q s =
           \<lparr>writes = [Error msg StatusBadRequest], calls = [], ended = Returned, backend = s\<rparr>"
  using assms by (auto simp: Share_def Let_def finish_def)

theorem share_rejects_invalid_input_witness:
  "(\<exists>msg. Share memController [''fileKey'' \<mapsto> [''a''], ''expiresIn'' \<mapsto> [''0'']]
            \<lparr>objects = [(''a'', 3)], faults = []\<rparr> =
      \<lparr>writes = [Error msg StatusBadRequest], calls = [], ended = Returned,
       backend = \<lparr>objects = [(''a'', 3)], faults = []\<rparr>\<rparr>) \<and>
   (\<exists>msg. Share memController [''fileKey'' \<mapsto> [''a''], ''expiresIn'' \<mapsto> [''-5'']]
            \<lparr>objects = [(''a'', 3)], faults = []\<rparr> =
      \<lparr>writes = [Error msg StatusBadRequest], calls = [], ended = Returned,
       backend = \<lparr>objects = [(''a'', 3)], faults = []\<rparr>\<rparr>) \<and>
   (\<exists>msg. Share memController [''expiresIn'' \<mapsto> [''60'']]
            \<lparr>objects = [(''a'', 3)], faults = []\<rparr> =
      \<lparr>writes = [Error msg StatusBadRequest], calls = [], ended = Returned,
       backend = \<lparr>objects = [(''a'', 3)], faults = []\<rparr>\<rparr>) \<and>
   (\<exists>msg. Share memController [''fileKey'' \<mapsto> [''a''], ''expiresIn'' \<mapsto> [''abc'']]
            \<lparr>objects = [(''a'', 3)], faults = []\<rparr> =
      \<lparr>writes = [Error msg StatusBadRequest], calls = [], ended = Returned,
       backend = \<lparr>objects = [(''a'', 3)], faults = []\<rparr>\<rparr>) \<and>
   (\<exists>msg. Share memController [''fileKey'' \<mapsto> [''a'']]
            \<lparr>objects = [(''a'', 3)], faults = []\<rparr> =
      \<lparr>writes = [Error msg StatusBadRequest], calls = [], ended = Returned,
       backend = \<lparr>objects = [(''a'', 3)], faults = []\<rparr>\<rparr>)"
proof -
  have zero: "Get [''fileKey'' \<mapsto> [''a''], ''expiresIn'' \<mapsto> [''0'']] ''fileKey'' = [] \<or>
      Atoi (Get [''fileKey'' \<mapsto> [''a''], ''expiresIn'' \<mapsto> [''0'']] ''expiresIn'') = None \<or>
      (\<exists>n. Atoi (Get [''fileKey'' \<mapsto> [''a''], ''expiresIn'' \<mapsto> [''0'']] ''expiresIn'') = Some n
           \<and> n \<le> 0)"
    by (simp add: Get_def Atoi_examples)
  have neg: "Get [''fileKey'' \<mapsto> [''a''], ''expiresIn'' \<mapsto> [''-5'']] ''fileKey'' = [] \<or>
      Atoi (Get [''fileKey'' \<mapsto> [''a''], ''expiresIn'' \<mapsto> [''-5'']] ''expiresIn'') = None \<or>
      (\<exists>n. Atoi (Get [''fileKey'' \<mapsto> [''a''], ''expiresIn'' \<mapsto> [''-5'']] ''expiresIn'') = Some n
           \<and> n \<le> 0)"
    by (simp add: Get_def Atoi_examples)
  have nokey: "Get [''expiresIn'' \<mapsto> [''60'']] ''fileKey'' = [] \<or>
      Atoi (Get [''expiresIn'' \<mapsto> [''60'']] ''expiresIn'') = None \<or>
      (\<exists>n. Atoi (Get [''expiresIn'' \<mapsto> [''60'']] ''expiresIn'') = Some n \<and> n \<le> 0)"
    by (simp add: Get_missing)
  have word: "Get [''fileKey'' \<mapsto> [''a''], ''expiresIn'' \<mapsto> [''abc'']] ''fileKey'' = [] \<or>
      Atoi (Get [''fileKey'' \<mapsto> [''a''], ''expiresIn'' \<mapsto> [''abc'']] ''expiresIn'') = None \<or>
      (\<exists>n. Atoi (Get [''fileKey'' \<mapsto> [''a''], ''expiresIn'' \<mapsto> [''abc'']] ''expiresIn'') = Some n
           \<and> n \<le> 0)"
    by (simp add: Get_def Atoi_examples)
  have noexp: "Get [''fileKey'' \<mapsto> [''a'']] ''fileKey'' = [] \<or>
      Atoi (Get [''fileKey'' \<mapsto> [''a'']] ''expiresIn'') = None \<or>
      (\<exists>n. Atoi (Get [''fileKey'' \<mapsto> [''a'']] ''expiresIn'') = Some n \<and> n \<le> 0)"
    by (simp add: Get_missing Atoi_empty)
  show ?thesis
    using share_rejects_invalid_input [OF zero, of memController "\<lparr>objects = [(''a'', 3)], faults = []\<rparr>"]
      share_rejects_invalid_input [OF neg, of memController "\<lparr>objects = [(''a'', 3)], faults = []\<rparr>"]
      share_rejects_invalid_input [OF nokey, of memController "\<lparr>objects = [(''a'', 3)], faults = []\<rparr>"]
      share_rejects_invalid_input [OF word, of memController "\<lparr>objects = [(''a'', 3)], faults = []\<rparr>"]
      share_rejects_invalid_input [OF noexp, of memController "\<lparr>objects = [(''a'', 3)], faults = []\<rparr>"]
    by (intro conjI)
qed

lemma sint_seconds:
  assumes "0 < n" and "n \<le> 9223372036"
  shows "sint ((word_of_int n :: int64) * Second) = n * 1000000000"
proof -
  have eq: "(word_of_int n :: int64) * Second = word_of_int (n * 1000000000)"
    by (simp add: Second_def)
  have "signed_take_bit (LENGTH(64) - 1) (n * 1000000000) = n * 1000000000"
    by (rule signed_take_bit_int_eq_self) (use assms in simp_all)
  then show ?thesis
    by (simp only: eq sint_sbintrunc')
qed

text \<open>
  Claim C9, amended. For a share request that passes validation with \<open>expiresIn\<close> at
  most 9223372036 seconds (the whole seconds that fit a \<^verbatim>\<open>time.Duration\<close>), the handler
  makes exactly one client call: a presign of a GET of the object under \<open>fileKey\<close>, with
  the response content disposition \<open>attachment\<close> and a validity of exactly \<open>expiresIn\<close>
  seconds. The URL that call returns is the payload of the success envelope; its error,
  if it fails, is answered with status 500.
\<close>

theorem share_presigns_download:
  assumes "Get q ''fileKey'' \<noteq> []" and "Atoi (Get q ''expiresIn'') = Some n"
    and "0 < n" and "n \<le> 9223372036"
  shows "\<exists>d. sint d = n * 1000000000 \<and>
           calls (Share sc q s) =
             [Call_PresignGetObject (bucketName sc) (Get q ''fileKey'') ''attachment'' d] \<and>
           (\<forall>url s'. s3_PresignGetObject (s3Client sc) (bucketName sc) (Get q ''fileKey'')
                        ''attachment'' d s = (Inr url, s') \<longrightarrow>
              Share sc q s =
                \<lparr>writes = [Encode \<lparr>Status = 200, Payload = PString url\<rparr>],
                 calls = [Call_PresignGetObject (bucketName sc) (Get q ''fileKey'')
                            ''attachment'' d],
                 ended = Returned, backend = s'\<rparr>) \<and>
           (\<forall>err s'. s3_PresignGetObject (s3Client sc) (bucketName sc) (Get q ''fileKey'')
                        ''attachment'' d s = (Inl err, s') \<longrightarrow>
              writes (Share sc q s) =
                [Error (''Failed to generate presigned URL: '' @ err) StatusInternalServerError])"
proof (intro exI conjI)
  show "sint ((word_of_int n :: int64) * Second) = n * 1000000000"
    using assms(3,4) by (rule sint_seconds)
qed (use assms in \<open>auto simp: Share_def Let_def finish_def split: prod.splits sum.splits\<close>)

lemma mem_presign_get_ok:
  "faults m = [] \<Longrightarrow>
   s3_PresignGetObject memClient b k disp d m = (Inr (''https://'' @ b @ ''/'' @ k), m)"
  by (simp add: memClient_def guarded_def nextFault_def)

theorem share_presigns_download_witness:
  "sint (60000000000 :: int64) = 60 * 1000000000 \<and>
   Share memController [''fileKey'' \<mapsto> [''a''], ''expiresIn'' \<mapsto> [''60'']]
     \<lparr>objects = [(''a'', 3)], faults = []\<rparr> =
     \<lparr>writes = [Encode \<lparr>Status = 200, Payload = PString ''https://bucket/a''\<rparr>],
      calls = [Call_PresignGetObject ''bucket'' ''a'' ''attachment'' 60000000000],
      ended = Returned, backend = \<lparr>objects = [(''a'', 3)], faults = []\<rparr>\<rparr>"
proof -
  let ?q = "[''fileKey'' \<mapsto> [''a''], ''expiresIn'' \<mapsto> [''60'']]"
  let ?m = "\<lparr>objects = [(''a'', 3)], faults = []\<rparr>"
  have a: "Get ?q ''fileKey'' \<noteq> []" by (simp add: Get_def)
  have b: "Atoi (Get ?q ''expiresIn'') = Some 60" by (simp add: Get_def Atoi_examples)
  have c: "(0 :: int) < 60" "(60 :: int) \<le> 9223372036" by simp_all
  from share_presigns_download [OF a b c, of memController ?m]
  obtain d where d: "sint d = 60 * 1000000000"
    and ok: "\<forall>url s'. s3_PresignGetObject (s3Client memController) (bucketName memController)
         (Get ?q ''fileKey'') ''attachment'' d ?m = (Inr url, s') \<longrightarrow>
       Share memController ?q ?m =
         \<lparr>writes = [Encode \<lparr>Status = 200, Payload = PString url\<rparr>],
          calls = [Call_PresignGetObject (bucketName memController) (Get ?q ''fileKey'')
                     ''attachment'' d],
          ended = Returned, backend = s'\<rparr>"
    by blast
  have "d = 60000000000"
  proof -
    have "sint d = sint (60000000000 :: int64)" using d by simp
    then show ?thesis by (simp only: signed_word_eqI)
  qed
  with ok show ?thesis
    by (simp add: memController_def mem_presign_get_ok Get_def)
qed

text \<open>
  Claim C9 as stated, for every request passing validation, fails at \<open>expiresIn\<close> =
  9223372037: the product with \<^verbatim>\<open>time.Second\<close> wraps, and the validity asked of the
  presign call is the negative duration of -9223372036709551616 nanoseconds.
\<close>

theorem share_expiry_wraps:
  "calls (Share memController [''fileKey'' \<mapsto> [''a''], ''expiresIn'' \<mapsto> [''9223372037'']]
     \<lparr>objects = [(''a'', 3)], faults = []\<rparr>) =
     [Call_PresignGetObject ''bucket'' ''a'' ''attachment'' 9223372037000000000] \<and>
   sint (9223372037000000000 :: int64) = - 9223372036709551616"
  by (simp add: Share_def Let_def Get_def Atoi_examples Second_def memController_def
      mem_presign_get_ok finish_def)

section \<open>Renaming\<close>

text \<open>
  Claim C5. A rename copies, then deletes. When the copy fails, the handler answers with
  that error, the copy is the only call it made (the delete is never attempted), and no
  object of the bucket has changed, the one under the old key included. When the copy
  succeeds and the delete fails, the handler answers with the error of the delete, copy
  and delete are the only calls it made (nothing is undone), and afterwards the bucket
  holds an object under the old key and under the new key. What is said of the bucket's
  objects rests on \<open>storeContract\<close>; the responses and the calls hold for every client.
\<close>

theorem rename_copy_then_delete:
  assumes "storeContract (s3Client sc) obj"
  shows
    "(\<forall>err s1. s3_CopyObject (s3Client sc) (bucketName sc)
                  (bucketName sc @ ''/'' @ Get q ''oldFileKey'') (Get q ''newFileKey'') s =
                (Inl err, s1) \<longrightarrow>
        Rename sc q s =
          \<lparr>writes = [Error err StatusInternalServerError],
           calls = [Call_CopyObject (bucketName sc)
                      (bucketName sc @ ''/'' @ Get q ''oldFileKey'') (Get q ''newFileKey'')],
           ended = Returned, backend = s1\<rparr> \<and>
        obj s1 = obj s) \<and>
     (\<forall>u s1 err s2. s3_CopyObject (s3Client sc) (bucketName sc)
                  (bucketName sc @ ''/'' @ Get q ''oldFileKey'') (Get q ''newFileKey'') s =
                (Inr u, s1) \<and>
              s3_DeleteObject (s3Client sc) (bucketName sc) (Get q ''oldFileKey'') s1 =
                (Inl err, s2) \<longrightarrow>
        Rename sc q s =
          \<lparr>writes = [Error err StatusInternalServerError],
           calls = [Call_CopyObject (bucketName sc)
                      (bucketName sc @ ''/'' @ Get q ''oldFileKey'') (Get q ''newFileKey''),
                    Call_DeleteObject (bucketName sc) (Get q ''oldFileKey'')],
           ended = Returned, backend = s2\<rparr> \<and>
        obj s2 (Get q ''oldFileKey'') \<noteq> None \<and> obj s2 (Get q ''newFileKey'') \<noteq> None)"
proof (intro conjI allI impI)
  fix err s1
  assume c: "s3_CopyObject (s3Client sc) (bucketName sc)
                  (bucketName sc @ ''/'' @ Get q ''oldFileKey'') (Get q ''newFileKey'') s =
                (Inl err, s1)"
  then show "Rename sc q s =
          \<lparr>writes = [Error err StatusInternalServerError],
           calls = [Call_CopyObject (bucketName sc)
                      (bucketName sc @ ''/'' @ Get q ''oldFileKey'') (Get q ''newFileKey'')],
           ended = Returned, backend = s1\<rparr>"
    by (simp add: Rename_def Let_def finish_def)
  from assms c show "obj s1 = obj s"
    unfolding storeContract_def by blast
next
  fix u s1 err s2
  assume h: "s3_CopyObject (s3Client sc) (bucketName sc)
                  (bucketName sc @ ''/'' @ Get q ''oldFileKey'') (Get q ''newFileKey'') s =
                (Inr u, s1) \<and>
              s3_DeleteObject (s3Client sc) (bucketName sc) (Get q ''oldFileKey'') s1 =
                (Inl err, s2)"
  then show "Rename sc q s =
          \<lparr>writes = [Error err StatusInternalServerError],
           calls = [Call_CopyObject (bucketName sc)
                      (bucketName sc @ ''/'' @ Get q ''oldFileKey'') (Get q ''newFileKey''),
                    Call_DeleteObject (bucketName sc) (Get q ''oldFileKey'')],
           ended = Returned, backend = s2\<rparr>"
    by (simp add: Rename_def Let_def finish_def)
  from assms h have same: "obj s2 = obj s1"
    unfolding storeContract_def by blast
  from assms h have "obj s (Get q ''oldFileKey'') \<noteq> None \<and>
      obj s1 (Get q ''oldFileKey'') = obj s (Get q ''oldFileKey'') \<and>
      obj s1 (Get q ''newFileKey'') = obj s (Get q ''oldFileKey'')"
    unfolding storeContract_def by blast
  with same show "obj s2 (Get q ''oldFileKey'') \<noteq> None" "obj s2 (Get q ''newFileKey'') \<noteq> None"
    by simp_all
qed

lemma map_of_filter_other:
  "map_of (filter (\<lambda>e. fst e \<noteq> k) xs) x = (if x = k then None else map_of xs x)"
  by (induction xs) auto

lemma guarded_cases:
  "guarded f m = (r, m') \<Longrightarrow>
     (\<exists>e. r = Inl e \<and> objects m' = objects m) \<or>
     (\<exists>m0. objects m0 = objects m \<and> f m0 = (r, m'))"
  by (auto simp: guarded_def nextFault_def split: list.splits option.splits)

lemma mem_storeContract: "storeContract memClient (\<lambda>m. map_of (objects m))"
  unfolding storeContract_def
proof (intro conjI allI impI)
  fix b src k s err s'
  assume "s3_CopyObject memClient b src k s = (Inl err, s')"
  then have "guarded (\<lambda>m. if take (length b + 1) src = b @ ''/'' then
         (case map_of (objects m) (drop (length b + 1) src) of
            None \<Rightarrow> (Inl ''NoSuchKey'', m)
          | Some n \<Rightarrow> (Inr (), putObject k n m))
       else (Inl ''NoSuchBucket'', m)) s = (Inl err, s')"
    by (simp add: memClient_def memCopyObject_def)
  from guarded_cases [OF this] show "map_of (objects s') = map_of (objects s)"
    by (auto split: if_splits option.splits)
next
  fix b k s err s'
  assume "s3_DeleteObject memClient b k s = (Inl err, s')"
  then have "guarded (\<lambda>m. (Inr (), m\<lparr>objects := filter (\<lambda>e. fst e \<noteq> k) (objects m)\<rparr>)) s =
      (Inl err, s')"
    by (simp add: memClient_def)
  from guarded_cases [OF this] show "map_of (objects s') = map_of (objects s)"
    by auto
next
  fix b old k s u s'
  assume "s3_CopyObject memClient b (b @ ''/'' @ old) k s = (Inr u, s')"
  then have "guarded (\<lambda>m. if take (length b + 1) (b @ ''/'' @ old) = b @ ''/'' then
         (case map_of (objects m) (drop (length b + 1) (b @ ''/'' @ old)) of
            None \<Rightarrow> (Inl ''NoSuchKey'', m)
          | Some n \<Rightarrow> (Inr (), putObject k n m))
       else (Inl ''NoSuchBucket'', m)) s = (Inr u, s')"
    by (simp add: memClient_def memCopyObject_def)
  from guarded_cases [OF this]
  have "map_of (objects s) old \<noteq> None \<and> map_of (objects s') old = map_of (objects s) old \<and>
        map_of (objects s') k = map_of (objects s) old"
    by (auto simp: putObject_def map_of_filter_other split: option.splits)
  then show "map_of (objects s) old \<noteq> None" "map_of (objects s') old = map_of (objects s) old"
    "map_of (objects s') k = map_of (objects s) old"
    by simp_all
qed

lemma mem_rename_calls:
  "s3_CopyObject memClient ''bucket'' ''bucket/a'' ''b''
     \<lparr>objects = [(''a'', 3)], faults = [Some ''boom'']\<rparr> =
     (Inl ''boom'', \<lparr>objects = [(''a'', 3)], faults = []\<rparr>)"
  "s3_CopyObject memClient ''bucket'' ''bucket/a'' ''b''
     \<lparr>objects = [(''a'', 3)], faults = [None, Some ''boom'']\<rparr> =
     (Inr (), \<lparr>objects = [(''b'', 3), (''a'', 3)], faults = [Some ''boom'']\<rparr>)"
  "s3_DeleteObject memClient ''bucket'' ''a''
     \<lparr>objects = [(''b'', 3), (''a'', 3)], faults = [Some ''boom'']\<rparr> =
     (Inl ''boom'', \<lparr>objects = [(''b'', 3), (''a'', 3)], faults = []\<rparr>)"
  by (simp_all add: memClient_def memCopyObject_def guarded_def nextFault_def putObject_def)

theorem rename_copy_then_delete_witness:
  "storeContract (s3Client memController) (\<lambda>m. map_of (objects m)) \<and>
   Rename memController [''oldFileKey'' \<mapsto> [''a''], ''newFileKey'' \<mapsto> [''b'']]
     \<lparr>objects = [(''a'', 3)], faults = [Some ''boom'']\<rparr> =
     \<lparr>writes = [Error ''boom'' StatusInternalServerError],
      calls = [Call_CopyObject ''bucket'' ''bucket/a'' ''b''],
      ended = Returned, backend = \<lparr>objects = [(''a'', 3)], faults = []\<rparr>\<rparr> \<and>
   Rename memController [''oldFileKey'' \<mapsto> [''a''], ''newFileKey'' \<mapsto> [''b'']]
     \<lparr>objects = [(''a'', 3)], faults = [None, Some ''boom'']\<rparr> =
     \<lparr>writes = [Error ''boom'' StatusInternalServerError],
      calls = [Call_CopyObject ''bucket'' ''bucket/a'' ''b'', Call_DeleteObject ''bucket'' ''a''],
      ended = Returned, backend = \<lparr>objects = [(''b'', 3), (''a'', 3)], faults = []\<rparr>\<rparr> \<and>
   map_of (objects \<lparr>objects = [(''b'', 3 :: int64), (''a'', 3)], faults = []\<rparr>) ''a'' \<noteq> None \<and>
   map_of (objects \<lparr>objects = [(''b'', 3 :: int64), (''a'', 3)], faults = []\<rparr>) ''b'' \<noteq> None"
proof -
  let ?q = "[''oldFileKey'' \<mapsto> [''a''], ''newFileKey'' \<mapsto> [''b'']]"
  have c: "storeContract (s3Client memController) (\<lambda>m. map_of (objects m))"
    by (simp add: memController_def mem_storeContract)
  have g: "Get ?q ''oldFileKey'' = ''a''" "Get ?q ''newFileKey'' = ''b''"
    by (simp_all add: Get_def)
  have sc: "s3Client memController = memClient" "bucketName memController = ''bucket''"
    by (simp_all add: memController_def)
  from rename_copy_then_delete [OF c, of ?q "\<lparr>objects = [(''a'', 3)], faults = [Some ''boom'']\<rparr>"]
    rename_copy_then_delete [OF c, of ?q "\<lparr>objects = [(''a'', 3)], faults = [None, Some ''boom'']\<rparr>"]
  show ?thesis
    unfolding g sc using c mem_rename_calls by (simp add: sc)
qed

section \<open>Bodies that do not decode\<close>

text \<open>
  Claim C6 says that a body that does not decode is answered with status 400 before any
  backend call, by each of the three handlers that read a body. The part URL issuer does
  so (\<open>issuer_rejects_decode_error\<close>). The initiator does not: whatever error
  \<^verbatim>\<open>Decode\<close> returned, it issues the call that creates the upload, never writes status
  400, and behaves as if the decoding had succeeded; on an undecodable body, which leaves
  the file name empty, the in-memory client answers and the handler reports success. The
  finalizer drops the error in the same way (\<open>finalizer_ignores_decode_error\<close>).
\<close>

theorem initiator_ignores_decode_error:
  "calls (InitiateMultipartUpload sc (body, Some e) s) =
     [Call_CreateMultipartUpload (bucketName sc) (FileName body)] \<and>
   Error msg StatusBadRequest \<notin> set (writes (InitiateMultipartUpload sc (body, Some e) s)) \<and>
   InitiateMultipartUpload sc (body, Some e) s = InitiateMultipartUpload sc (body, None) s \<and>
   InitiateMultipartUpload memController (\<lparr>FileName = []\<rparr>, Some ''unexpected EOF'')
     \<lparr>objects = [], faults = []\<rparr> =
     \<lparr>writes = [Encode \<lparr>Status = 200, Payload = PUpload ''upload-1'' []\<rparr>],
      calls = [Call_CreateMultipartUpload ''bucket'' []], ended = Returned,
      backend = \<lparr>objects = [], faults = []\<rparr>\<rparr>"
  by (simp add: InitiateMultipartUpload_def Let_def finish_def panic_def
      StatusBadRequest_def StatusInternalServerError_def memController_def memClient_def
      guarded_def nextFault_def
      split: prod.splits sum.splits option.splits)

lemma finalizer_ignores_decode_error:
  "CompleteMultipartUpload srt sc (body, Some e) s = CompleteMultipartUpload srt sc (body, None) s \<and>
   take 1 (calls (CompleteMultipartUpload srt sc (body\<lparr>Parts := []\<rparr>, Some e) s)) =
     [Call_CompleteMultipartUpload (bucketName sc) (FileKey body) (FileId body) []]"
  by (simp add: CompleteMultipartUpload_def sortParts_def Let_def finish_def
      split: prod.splits sum.splits)

lemma issuer_rejects_decode_error:
  "GeneratePresignedUrl maxLen sc (body, Some e) s =
     \<lparr>writes = [Error ''Invalid request payload'' StatusBadRequest], calls = [],
      ended = Returned, backend = s\<rparr>"
  by (simp add: GeneratePresignedUrl_def finish_def)

section \<open>The size of the finalized object\<close>

text \<open>
  Claim C8. When the sort returns and the backend's completion call succeeds, the
  finalizer issues exactly one further call, the metadata query for the same key. If the
  query fails, the handler answers with that error and status 500, although the
  completion succeeded. If it succeeds, the handler answers with the success envelope
  whose payload is the key and the content length that the query returned.
\<close>

theorem finalizer_reports_size:
  assumes "sortParts srt (Parts body) = Some m"
    and "s3_CompleteMultipartUpload (s3Client sc) (bucketName sc) (FileKey body) (FileId body)
           m s = (Inr u, s1)"
  shows
    "calls (CompleteMultipartUpload srt sc (body, err) s) =
       [Call_CompleteMultipartUpload (bucketName sc) (FileKey body) (FileId body) m,
        Call_HeadObject (bucketName sc) (FileKey body)] \<and>
     (\<forall>e s2. s3_HeadObject (s3Client sc) (bucketName sc) (FileKey body) s1 = (Inl e, s2) \<longrightarrow>
        writes (CompleteMultipartUpload srt sc (body, err) s) =
          [Error e StatusInternalServerError]) \<and>
     (\<forall>h s2. s3_HeadObject (s3Client sc) (bucketName sc) (FileKey body) s1 = (Inr h, s2) \<longrightarrow>
        writes (CompleteMultipartUpload srt sc (body, err) s) =
          [Encode \<lparr>Status = 200, Payload = PKeySize (FileKey body) (ContentLength h)\<rparr>])"
  using assms
  by (simp add: CompleteMultipartUpload_def Let_def copy_parts_id finish_def
      split: prod.splits sum.splits)

theorem finalizer_reports_size_witness:
  "calls (CompleteMultipartUpload insertionSortLessFunc memController
      (\<lparr>FileKey = ''k'', FileId = ''u'', Parts = [\<lparr>ETag = Some ''a'', PartNumber = Some 1\<rparr>]\<rparr>, None)
      \<lparr>objects = [], faults = []\<rparr>) =
     [Call_CompleteMultipartUpload ''bucket'' ''k'' ''u'' [\<lparr>ETag = Some ''a'', PartNumber = Some 1\<rparr>],
      Call_HeadObject ''bucket'' ''k''] \<and>
   writes (CompleteMultipartUpload insertionSortLessFunc memController
      (\<lparr>FileKey = ''k'', FileId = ''u'', Parts = [\<lparr>ETag = Some ''a'', PartNumber = Some 1\<rparr>]\<rparr>, None)
      \<lparr>objects = [], faults = []\<rparr>) =
     [Encode \<lparr>Status = 200, Payload = PKeySize ''k'' (Some 1)\<rparr>] \<and>
   writes (CompleteMultipartUpload insertionSortLessFunc memController
      (\<lparr>FileKey = ''k'', FileId = ''u'', Parts = [\<lparr>ETag = Some ''a'', PartNumber = Some 1\<rparr>]\<rparr>, None)
      \<lparr>objects = [], faults = [None, Some ''boom'']\<rparr>) =
     [Error ''boom'' StatusInternalServerError]"
proof -
  let ?ps = "[\<lparr>ETag = Some ''a'', PartNumber = Some (1 :: int32)\<rparr>]"
  let ?body = "\<lparr>FileKey = ''k'', FileId = ''u'', Parts = ?ps\<rparr>"
  have sp: "sortParts insertionSortLessFunc (Parts ?body) = Some ?ps"
    by (simp add: sortParts_def)
  have c1: "s3_CompleteMultipartUpload (s3Client memController) (bucketName memController)
      (FileKey ?body) (FileId ?body) ?ps \<lparr>objects = [], faults = []\<rparr> =
      (Inr (), \<lparr>objects = [(''k'', 1)], faults = []\<rparr>)"
    by (simp add: memController_def memClient_def guarded_def nextFault_def putObject_def)
  have c2: "s3_CompleteMultipartUpload (s3Client memController) (bucketName memController)
      (FileKey ?body) (FileId ?body) ?ps \<lparr>objects = [], faults = [None, Some ''boom'']\<rparr> =
      (Inr (), \<lparr>objects = [(''k'', 1)], faults = [Some ''boom'']\<rparr>)"
    by (simp add: memController_def memClient_def guarded_def nextFault_def putObject_def)
  have h1: "s3_HeadObject (s3Client memController) (bucketName memController) (FileKey ?body)
      \<lparr>objects = [(''k'', 1)], faults = []\<rparr> =
      (Inr \<lparr>ContentLength = Some 1\<rparr>, \<lparr>objects = [(''k'', 1)], faults = []\<rparr>)"
    by (simp add: memController_def memClient_def guarded_def nextFault_def)
  have h2: "s3_HeadObject (s3Client memController) (bucketName memController) (FileKey ?body)
      \<lparr>objects = [(''k'', 1)], faults = [Some ''boom'']\<rparr> =
      (Inl ''boom'', \<lparr>objects = [(''k'', 1)], faults = []\<rparr>)"
    by (simp add: memController_def memClient_def guarded_def nextFault_def)
  from finalizer_reports_size [OF sp c1, of None] finalizer_reports_size [OF sp c2, of None] h1 h2
  show ?thesis
    by (simp add: memController_def)
qed

end
